theory Spec2Isabelle
  imports Complex_Main
begin

section \<open>Constants and the level map\<close>

text \<open>
  The simulation core of \<^verbatim>\<open>src/mario/src/App.js\<close>. JavaScript numbers are
  modelled as mathematical reals (coordinates, velocities, time step) and as integers
  where the program only counts (score, lives, tile indices); rounding of
  doubles is not modelled.
\<close>

definition TILE :: real where
  "TILE = 48"

definition GRAV :: real where
  "GRAV = 2400"

definition MOVE_SPEED :: real where
  "MOVE_SPEED = 280"

definition JUMP_SPEED :: real where
  "JUMP_SPEED = 720"

text \<open>The level map of the repository, lines 65--76 of the source.\<close>

definition level :: "string list" where
  "level =
    [''                                                                                '',
     ''                                                                                '',
     ''                                                                                '',
     ''                                                                                '',
     ''       C                                                                        G'',
     ''   #######                     E                      C               ######    '',
     ''                                                                                '',
     '' P                                                                              '',
     ''############################    ############################  ###################'',
     ''############################    ############################  ###################'']"

text \<open>
  \<^verbatim>\<open>rows = level.length\<close> and \<^verbatim>\<open>cols = Math.max(...level.map(r => r.length))\<close>.
  For the empty level JavaScript yields \<^verbatim>\<open>-Infinity\<close> for \<open>cols\<close>; the model
  yields 0. The two agree wherever \<open>cols\<close> is read: the parsing loops do not run and
  \<open>getTileAt\<close> already answers \<open>null\<close> on the row test when there are no rows.
\<close>

definition rows :: "string list \<Rightarrow> nat" where
  "rows lv = length lv"

definition cols :: "string list \<Rightarrow> nat" where
  "cols lv = fold max (map length lv) 0"

definition worldW :: "string list \<Rightarrow> real" where
  "worldW lv = real (cols lv) * TILE"

definition worldH :: "string list \<Rightarrow> real" where
  "worldH lv = real (rows lv) * TILE"

section \<open>Data model\<close>

record pos =
  x :: real
  y :: real

record tile = pos +
  c :: nat
  r :: nat

record coin = tile +
  picked :: bool

record rect = pos +
  w :: real
  h :: real

record entity = rect +
  alive :: bool

record player = entity +
  vx :: real
  vy :: real
  onGround :: bool
  facing :: int

record enemy = entity +
  speed :: real
  dir :: real

record keys =
  left :: bool
  right :: bool
  up :: bool

text \<open>
  The mutable session: the objects built by the parsing loop together with the two
  counters \<^verbatim>\<open>scoreRef.current\<close> and \<^verbatim>\<open>livesRef.current\<close>.
\<close>

record world =
  tiles :: "tile list"
  coins :: "coin list"
  enemies :: "enemy list"
  player :: player
  score :: int
  lives :: int

section \<open>Tile queries\<close>

text \<open>\<^verbatim>\<open>row[c] || " "\<close>: a string index past the end is \<^verbatim>\<open>undefined\<close>, replaced by a space.\<close>

definition charOrSpace :: "string \<Rightarrow> nat \<Rightarrow> char" where
  "charOrSpace row cc = (if cc < length row then row ! cc else CHR '' '')"

text \<open>\<open>None\<close> stands for \<^verbatim>\<open>null\<close>.\<close>

definition getTileAt :: "string list \<Rightarrow> int \<Rightarrow> int \<Rightarrow> char option" where
  "getTileAt lv col row =
     (if row < 0 \<or> row \<ge> int (rows lv) \<or> col < 0 \<or> col \<ge> int (cols lv) then None
      else Some (charOrSpace (lv ! nat row) (nat col)))"

definition isSolidAtColRow :: "string list \<Rightarrow> int \<Rightarrow> int \<Rightarrow> bool" where
  "isSolidAtColRow lv col row = (getTileAt lv col row = Some (CHR ''#''))"

definition rectsIntersect :: "rect \<Rightarrow> rect \<Rightarrow> bool" where
  "rectsIntersect a b =
     (\<not> (x a + w a \<le> x b \<or> x a \<ge> x b + w b \<or> y a + h a \<le> y b \<or> y a \<ge> y b + h b))"

section \<open>Level parsing\<close>

text \<open>The player object literal of lines 87--97.\<close>

definition initPlayer :: player where
  "initPlayer =
     \<lparr>x = TILE * 2, y = 0, w = 36, h = 42, alive = True,
      vx = 0, vy = 0, onGround = False, facing = 1\<rparr>"

text \<open>
  The state before the parsing loop: empty object lists, the player literal, and the
  counters as \<^verbatim>\<open>useRef(0)\<close> and \<^verbatim>\<open>useRef(3)\<close> create them.
\<close>

definition initWorld :: world where
  "initWorld =
     \<lparr>tiles = [], coins = [], enemies = [], player = initPlayer, score = 0, lives = 3\<rparr>"

text \<open>The body of the inner parsing loop (lines 102--115) for the character \<open>ch\<close> of cell \<open>(cc, rr)\<close>.\<close>

definition parseCell :: "nat \<Rightarrow> nat \<Rightarrow> char \<Rightarrow> world \<Rightarrow> world" where
  "parseCell rr cc ch wd =
     (let px = real cc * TILE;
          py = real rr * TILE;
          wd1 = (if ch = CHR ''#''
                 then wd\<lparr>tiles := tiles wd @ [\<lparr>x = px, y = py, c = cc, r = rr\<rparr>]\<rparr>
                 else wd);
          wd2 = (if ch = CHR ''C''
                 then wd1\<lparr>coins := coins wd1 @
                        [\<lparr>x = px + TILE / 2, y = py + TILE / 2, c = cc, r = rr, picked = False\<rparr>]\<rparr>
                 else wd1);
          wd3 = (if ch = CHR ''E''
                 then wd2\<lparr>enemies := enemies wd2 @
                        [\<lparr>x = px, y = py + TILE - 40, w = 36, h = 36, alive = True,
                          speed = 60, dir = 1\<rparr>]\<rparr>
                 else wd2)
      in if ch = CHR ''P''
         then wd3\<lparr>player := (player wd3)\<lparr>x := px + 6, y := py - h (player wd3)\<rparr>\<rparr>
         else wd3)"

definition parseRow :: "string list \<Rightarrow> nat \<Rightarrow> world \<Rightarrow> world" where
  "parseRow lv rr wd =
     fold (\<lambda>cc. parseCell rr cc (charOrSpace (lv ! rr) cc)) [0..<cols lv] wd"

definition parseLevel :: "string list \<Rightarrow> world" where
  "parseLevel lv = fold (parseRow lv) [0..<rows lv] initWorld"

section \<open>Collision resolver\<close>

text \<open>
  The cells visited by the two nested loops \<^verbatim>\<open>for r = top..bottom\<close>,
  \<^verbatim>\<open>for c = left..right\<close>, in the order of the visits (row-major), as pairs
  \<open>(column, row)\<close>.
\<close>

definition scanCells :: "int \<Rightarrow> int \<Rightarrow> int \<Rightarrow> int \<Rightarrow> (int \<times> int) list" where
  "scanCells tp bt lf rt = concat (map (\<lambda>rr. map (\<lambda>cc. (cc, rr)) [lf..rt]) [tp..bt])"

text \<open>The first visited cell that is solid: the cell at which the loops return.\<close>

definition firstSolid :: "string list \<Rightarrow> int \<Rightarrow> int \<Rightarrow> int \<Rightarrow> int \<Rightarrow> (int \<times> int) option" where
  "firstSolid lv tp bt lf rt =
     List.find (\<lambda>(cc, rr). isSolidAtColRow lv cc rr) (scanCells tp bt lf rt)"

text \<open>The range of cells the resolver scans for an entity, after the delta is applied.\<close>

definition hitCell :: "string list \<Rightarrow> player \<Rightarrow> (int \<times> int) option" where
  "hitCell lv ent =
     (let left = \<lfloor>x ent / TILE\<rfloor>;
          right = \<lfloor>(x ent + w ent - 1) / TILE\<rfloor>;
          top = \<lfloor>y ent / TILE\<rfloor>;
          bottom = \<lfloor>(y ent + h ent - 1) / TILE\<rfloor>
      in firstSolid lv top bottom left right)"

text \<open>\<^verbatim>\<open>moveEntityX(ent, dx)\<close>, lines 148--168. \<^verbatim>\<open>if (ent.vx) ent.vx = 0\<close> tests for a nonzero number.\<close>

definition moveEntityX :: "string list \<Rightarrow> player \<Rightarrow> real \<Rightarrow> player" where
  "moveEntityX lv ent dx =
     (let ent1 = ent\<lparr>x := x ent + dx\<rparr>
      in case hitCell lv ent1 of
           None \<Rightarrow> ent1
         | Some (cc, rr) \<Rightarrow>
             (let ent2 = (if dx > 0 then ent1\<lparr>x := of_int cc * TILE - w ent1\<rparr>
                          else if dx < 0 then ent1\<lparr>x := of_int cc * TILE + TILE\<rparr>
                          else ent1)
              in if vx ent2 \<noteq> 0 then ent2\<lparr>vx := 0\<rparr> else ent2))"

text \<open>\<^verbatim>\<open>moveEntityY(ent, dy)\<close>, lines 170--192.\<close>

definition moveEntityY :: "string list \<Rightarrow> player \<Rightarrow> real \<Rightarrow> player" where
  "moveEntityY lv ent dy =
     (let ent1 = ent\<lparr>y := y ent + dy\<rparr>
      in case hitCell lv ent1 of
           None \<Rightarrow> ent1\<lparr>onGround := False\<rparr>
         | Some (cc, rr) \<Rightarrow>
             (if dy > 0 then ent1\<lparr>y := of_int rr * TILE - h ent1, vy := 0, onGround := True\<rparr>
              else if dy < 0 then ent1\<lparr>y := of_int rr * TILE + TILE, vy := 0\<rparr>
              else ent1))"

section \<open>Restart and the simulation step\<close>


text \<open>
  The life-loss block, written twice in \<^verbatim>\<open>update\<close> with the same statements: the
  ``player hurt'' branch (lines 271--281) and the void-fall branch (lines 288--296).
\<close>

definition playerHurt :: "world \<Rightarrow> world" where
  "playerHurt wd =
     (let wd1 = wd\<lparr>lives := lives wd - 1\<rparr>
      in if lives wd1 \<le> 0 then wd1\<lparr>player := (player wd1)\<lparr>alive := False\<rparr>\<rparr>
         else wd1\<lparr>player := (player wd1)\<lparr>x := TILE * 2, y := 0, vx := 0, vy := 0\<rparr>\<rparr>)"

text \<open>The body of the coin loop (lines 235--243) for the coin at index \<open>i\<close>.\<close>

definition coinBox :: "coin \<Rightarrow> rect" where
  "coinBox cn = \<lparr>x = x cn - 10, y = y cn - 10, w = 20, h = 20\<rparr>"

definition playerBox :: "player \<Rightarrow> rect" where
  "playerBox p = \<lparr>x = x p, y = y p, w = w p, h = h p\<rparr>"

definition coinStep :: "nat \<Rightarrow> world \<Rightarrow> world" where
  "coinStep i wd =
     (let cn = coins wd ! i
      in if \<not> picked cn then
           (if rectsIntersect (coinBox cn) (playerBox (player wd))
            then wd\<lparr>coins := (coins wd)[i := cn\<lparr>picked := True\<rparr>], score := score wd + 1\<rparr>
            else wd)
         else wd)"

definition collectCoins :: "world \<Rightarrow> world" where
  "collectCoins wd = fold coinStep [0..<length (coins wd)] wd"

text \<open>The patrol part of the enemy loop body, lines 251--257.\<close>

definition patrol :: "string list \<Rightarrow> real \<Rightarrow> enemy \<Rightarrow> enemy" where
  "patrol lv dt en =
     (let en1 = en\<lparr>x := x en + dir en * speed en * dt\<rparr>;
          aheadCol = \<lfloor>(x en1 + (if dir en1 > 0 then w en1 else 0)) / TILE\<rfloor>;
          footRow = \<lfloor>(y en1 + h en1 + 1) / TILE\<rfloor>
      in if \<not> isSolidAtColRow lv aheadCol footRow then en1\<lparr>dir := dir en1 * (- 1)\<rparr> else en1)"

definition enemyBox :: "enemy \<Rightarrow> rect" where
  "enemyBox en = \<lparr>x = x en, y = y en, w = w en, h = h en\<rparr>"

text \<open>The stomp test of line 264.\<close>

definition stomps :: "player \<Rightarrow> enemy \<Rightarrow> bool" where
  "stomps p en = (vy p > 0 \<and> (y p + h p) - (y en + h en / 2) < 16)"

text \<open>The body of the enemy loop (lines 248--283) for the enemy at index \<open>i\<close>.\<close>

definition enemyStep :: "string list \<Rightarrow> real \<Rightarrow> nat \<Rightarrow> world \<Rightarrow> world" where
  "enemyStep lv dt i wd =
     (let en = enemies wd ! i
      in if \<not> alive en then wd
         else
           (let en1 = patrol lv dt en;
                wd1 = wd\<lparr>enemies := (enemies wd)[i := en1]\<rparr>
            in if rectsIntersect (enemyBox en1) (playerBox (player wd1)) then
                 (if stomps (player wd1) en1
                  then wd1\<lparr>enemies := (enemies wd1)[i := en1\<lparr>alive := False\<rparr>],
                           player := (player wd1)\<lparr>vy := - JUMP_SPEED * 0.5\<rparr>,
                           score := score wd1 + 2\<rparr>
                  else playerHurt wd1)
               else wd1))"

definition updateEnemies :: "string list \<Rightarrow> real \<Rightarrow> world \<Rightarrow> world" where
  "updateEnemies lv dt wd = fold (enemyStep lv dt) [0..<length (enemies wd)] wd"

text \<open>The void-fall check, lines 287--297.\<close>

definition voidFall :: "string list \<Rightarrow> world \<Rightarrow> world" where
  "voidFall lv wd = (if y (player wd) > worldH lv + 500 then playerHurt wd else wd)"

text \<open>The input and physics part of \<^verbatim>\<open>update\<close>, lines 214--231.\<close>

definition movePlayer :: "string list \<Rightarrow> keys \<Rightarrow> real \<Rightarrow> player \<Rightarrow> player" where
  "movePlayer lv ks dt p =
     (let move = (if left ks then - 1 else 0) + (if right ks then 1 else (0::int));
          p1 = p\<lparr>vx := of_int move * MOVE_SPEED\<rparr>;
          p2 = (if move \<noteq> 0 then p1\<lparr>facing := (if move > 0 then 1 else - 1)\<rparr> else p1);
          p3 = (if up ks \<and> onGround p2 then p2\<lparr>vy := - JUMP_SPEED, onGround := False\<rparr> else p2);
          p4 = p3\<lparr>vy := vy p3 + GRAV * dt\<rparr>;
          p5 = moveEntityX lv p4 (vx p4 * dt)
      in moveEntityY lv p5 (vy p5 * dt))"

text \<open>\<^verbatim>\<open>update(dt)\<close>, lines 211--298.\<close>

definition update :: "string list \<Rightarrow> keys \<Rightarrow> real \<Rightarrow> world \<Rightarrow> world" where
  "update lv ks dt wd =
     (if \<not> alive (player wd) then wd
      else voidFall lv
             (updateEnemies lv dt
               (collectCoins (wd\<lparr>player := movePlayer lv ks dt (player wd)\<rparr>))))"

section \<open>Cells as rectangles, and example configurations\<close>

text \<open>
  The square of the world that the cell in column \<open>cc\<close> and row \<open>rr\<close> covers: the parsing
  loop places a tile at \<^verbatim>\<open>(c * TILE, r * TILE)\<close> and \<^verbatim>\<open>draw\<close> fills \<^verbatim>\<open>TILE\<close> by \<^verbatim>\<open>TILE\<close> there.
\<close>

definition cellBox :: "int \<Rightarrow> int \<Rightarrow> rect" where
  "cellBox cc rr = \<lparr>x = of_int cc * TILE, y = of_int rr * TILE, w = TILE, h = TILE\<rparr>"

text \<open>
  An executable form of ``the box overlaps no solid cell'': no cell of the grid is both
  solid and overlapped (cells outside the grid are never solid).
\<close>

definition clearOf :: "string list \<Rightarrow> rect \<Rightarrow> bool" where
  "clearOf lv b =
     list_all (\<lambda>(cc, rr). \<not> (isSolidAtColRow lv cc rr \<and> rectsIntersect b (cellBox cc rr)))
       (scanCells 0 (int (rows lv) - 1) 0 (int (cols lv) - 1))"

text \<open>A ledge: one solid cell at the left of the second row.\<close>

definition ledgeLevel :: "string list" where
  "ledgeLevel = [''   '', ''#  '']"

text \<open>A closed room around the free cell \<open>(1, 1)\<close>.\<close>

definition roomLevel :: "string list" where
  "roomLevel = [''###'', ''# #'', ''###'']"

definition walker :: player where
  "walker = initPlayer\<lparr>x := 54, y := 50, vx := 280, vy := 96\<rparr>"

section \<open>Auxiliary notions and further example configurations\<close>

text \<open>The pickup test of the coin loop (lines 235--238) for one coin, and its effect on the coin.\<close>

definition touches :: "player \<Rightarrow> coin \<Rightarrow> bool" where
  "touches p cn = (\<not> picked cn \<and> rectsIntersect (coinBox cn) (playerBox p))"

definition pick :: "player \<Rightarrow> coin \<Rightarrow> coin" where
  "pick p cn = (if touches p cn then cn\<lparr>picked := True\<rparr> else cn)"

text \<open>A level without a player marker.\<close>

definition bareLevel :: "string list" where
  "bareLevel = [''  C '', ''####'']"

text \<open>A level whose player marker is in cell \<open>(1, 1)\<close>.\<close>

definition spawnLevel :: "string list" where
  "spawnLevel = [''    '', '' P  '', ''####'']"

definition noKeys :: keys where
  "noKeys = \<lparr>left = False, right = False, up = False\<rparr>"

definition rightKey :: keys where
  "rightKey = \<lparr>left = False, right = True, up = False\<rparr>"

text \<open>The player of \<open>spawnLevel\<close> with three lives, falling below the level, just above the void limit.\<close>

definition falling :: world where
  "falling = (parseLevel spawnLevel)
     \<lparr>player := (player (parseLevel spawnLevel))\<lparr>y := 640, vy := 1000\<rparr>, score := 7\<rparr>"

text \<open>The same player below the void limit \<open>worldH + 500 = 644\<close>.\<close>

definition fallen :: world where
  "fallen = falling\<lparr>player := (player falling)\<lparr>y := 700\<rparr>\<rparr>"


text \<open>A level with one enemy.\<close>

definition duelLevel :: "string list" where
  "duelLevel = [''      '', '' P E  '', ''######'']"

text \<open>The player lands on the enemy of \<open>duelLevel\<close> from above, falling.\<close>

definition landing :: world where
  "landing = (parseLevel duelLevel)
     \<lparr>player := (player (parseLevel duelLevel))\<lparr>x := 150, y := 30, vy := 100\<rparr>\<rparr>"

text \<open>The player stands on the ground of \<open>duelLevel\<close> inside the enemy's box.\<close>

definition bumped :: world where
  "bumped = (parseLevel duelLevel)
     \<lparr>player := (player (parseLevel duelLevel))\<lparr>x := 150, y := 54, onGround := True\<rparr>\<rparr>"

text \<open>A level with two enemies, one above the other, in column 3.\<close>

definition stackLevel :: "string list" where
  "stackLevel = [''      '', ''   E  '', '' P E  '', ''######'']"

text \<open>
  The player of \<open>stackLevel\<close> with one life left, in a jump (rising) just left of the two
  enemies; its box spans the heights of both.
\<close>

definition lastLife :: world where
  "lastLife = (parseLevel stackLevel)
     \<lparr>player := (player (parseLevel stackLevel))\<lparr>x := 100, y := 84, vy := - 300\<rparr>,
      lives := 1\<rparr>"

text \<open>A level with two coins.\<close>

definition coinLevel :: "string list" where
  "coinLevel = [''      '', '' PC C '', ''######'']"

text \<open>The player of \<open>coinLevel\<close> moved onto the first coin.\<close>

definition atCoin :: world where
  "atCoin = (parseLevel coinLevel)
     \<lparr>player := (player (parseLevel coinLevel))\<lparr>x := 100, y := 54\<rparr>\<rparr>"

text \<open>
  A shaft: 23 empty rows above a floor two rows thick, three columns wide, without a
  player marker (the player starts at the default position, in column 2).
\<close>

definition shaftLevel :: "string list" where
  "shaftLevel = replicate 23 ''   '' @ [''###'', ''###'']"

text \<open>The player after \<open>k\<close> frames of free fall from the default position, at 25 frames a second.\<close>

definition fallP :: "nat \<Rightarrow> player" where
  "fallP k = initPlayer\<lparr>y := 48 / 25 * real (k * (k + 1)), vy := 96 * real k\<rparr>"

text \<open>The session of \<open>shaftLevel\<close> after 23 frames without input.\<close>

definition shaftFall :: world where
  "shaftFall = (parseLevel shaftLevel)\<lparr>player := fallP 23\<rparr>"

text \<open>The entity that the 24th frame hands to the vertical resolver: gravity added.\<close>

definition shaftDrop :: player where
  "shaftDrop = (fallP 23)\<lparr>vy := 2304\<rparr>"

text \<open>A level without a player marker whose cell at the default position is solid.\<close>

definition buriedLevel :: "string list" where
  "buriedLevel = [''  #'', ''###'']"

text \<open>The entity that the first frame of \<open>buriedLevel\<close> hands to the horizontal resolver.\<close>

definition buriedDrop :: player where
  "buriedDrop = initPlayer\<lparr>vy := GRAV * (1 / 25)\<rparr>"

text \<open>The falling player of \<open>duelLevel\<close> with its bottom edge one pixel into the enemy's top.\<close>

definition grazing :: world where
  "grazing = (parseLevel duelLevel)
     \<lparr>player := (player (parseLevel duelLevel))\<lparr>x := 150, y := 15, vy := 100\<rparr>\<rparr>"

text \<open>The player of \<open>bumped\<close> with one life left.\<close>

definition bumpedLast :: world where
  "bumpedLast = bumped\<lparr>lives := 1\<rparr>"


section \<open>Properties of the tile queries\<close>

lemma fold_max_ge: "a \<le> fold max xs (a::nat)"
  by (induction xs arbitrary: a) (auto intro: order_trans[OF max.cobounded2])

lemma fold_max_mem: "n \<in> set xs \<Longrightarrow> n \<le> fold max xs (a::nat)"
proof (induction xs arbitrary: a)
  case Nil
  then show ?case by simp
next
  case (Cons k xs)
  show ?case
  proof (cases "n = k")
    case True
    have "k \<le> max k a" by simp
    also have "\<dots> \<le> fold max xs (max k a)" by (rule fold_max_ge)
    finally show ?thesis using True by simp
  next
    case False
    with Cons.prems have "n \<in> set xs" by simp
    then show ?thesis using Cons.IH by simp
  qed
qed

lemma row_length_le_cols: "i < length lv \<Longrightarrow> length (lv ! i) \<le> cols lv"
  unfolding cols_def by (rule fold_max_mem) simp

lemma charOrSpace_hash:
  "charOrSpace s n = CHR ''#'' \<longleftrightarrow> n < length s \<and> s ! n = CHR ''#''"
  by (simp add: charOrSpace_def)

lemma isSolid_iff:
  "isSolidAtColRow lv col row \<longleftrightarrow>
     0 \<le> row \<and> row < int (length lv) \<and> 0 \<le> col \<and>
     nat col < length (lv ! nat row) \<and> lv ! nat row ! nat col = CHR ''#''"
proof -
  have "nat col < cols lv"
    if "0 \<le> row" "row < int (length lv)" "nat col < length (lv ! nat row)"
    using row_length_le_cols[of "nat row" lv] that by linarith
  then show ?thesis
    by (auto simp: isSolidAtColRow_def getTileAt_def rows_def charOrSpace_hash)
qed

lemma level_extent: "rows level = 10" "cols level = 81"
  by code_simp+

text \<open>
  Claim C8. The solidity query answers \<open>False\<close> whenever the row or the column index is
  negative or at least the extent of the grid on its axis (all four edges, the top
  included). Inside the grid it answers \<open>True\<close> exactly when the cell holds the
  character \<open>#\<close>; a column past the end of a short row counts as a space, hence not solid.
\<close>

theorem isSolid_bounds:
  "((row < 0 \<or> row \<ge> int (rows lv) \<or> col < 0 \<or> col \<ge> int (cols lv))
      \<longrightarrow> isSolidAtColRow lv col row = False) \<and>
   (0 \<le> row \<and> row < int (rows lv) \<and> 0 \<le> col \<and> col < int (cols lv)
      \<longrightarrow> isSolidAtColRow lv col row =
            (nat col < length (lv ! nat row) \<and> lv ! nat row ! nat col = CHR ''#''))"
  by (auto simp: isSolidAtColRow_def getTileAt_def charOrSpace_hash)

text \<open>
  On the repository's level (10 rows, 81 columns, rows 0--3 and 5--7 only 80 long):
  the four outside queries, the solid cell \<open>(80, 8)\<close>, the padded cell \<open>(80, 7)\<close> and
  the player marker's cell \<open>(1, 7)\<close>.
\<close>

theorem isSolid_bounds_witness:
  "isSolidAtColRow level (- 1) 8 = False \<and> isSolidAtColRow level 0 10 = False \<and>
   isSolidAtColRow level 81 8 = False \<and> isSolidAtColRow level 0 (- 1) = False \<and>
   isSolidAtColRow level 80 8 = True \<and> isSolidAtColRow level 80 7 = False \<and>
   isSolidAtColRow level 1 7 = False"
proof -
  have cells: "nat 80 < length (level ! nat 8)" "level ! nat 8 ! nat 80 = CHR ''#''"
    "\<not> nat 80 < length (level ! nat 7)" "level ! nat 7 ! nat 1 \<noteq> CHR ''#''"
    by code_simp+
  show ?thesis
    using isSolid_bounds[of 8 level "- 1"] isSolid_bounds[of 10 level 0]
      isSolid_bounds[of 8 level 81] isSolid_bounds[of "- 1" level 0]
      isSolid_bounds[of 8 level 80] isSolid_bounds[of 7 level 80]
      isSolid_bounds[of 7 level 1] cells
    by (simp add: level_extent)
qed

section \<open>Properties of the collision resolver\<close>

text \<open>
  Claim C10. The horizontal resolver changes at most the fields \<open>x\<close> and \<open>vx\<close> of the
  entity: \<open>y\<close>, the size, \<open>vy\<close>, \<open>onGround\<close>, \<open>facing\<close> and \<open>alive\<close> are as before, and
  the result is the argument with only \<open>x\<close> and \<open>vx\<close> overwritten.
\<close>

theorem moveEntityX_frame:
  "y (moveEntityX lv ent dx) = y ent \<and> w (moveEntityX lv ent dx) = w ent \<and>
   h (moveEntityX lv ent dx) = h ent \<and> alive (moveEntityX lv ent dx) = alive ent \<and>
   vy (moveEntityX lv ent dx) = vy ent \<and> onGround (moveEntityX lv ent dx) = onGround ent \<and>
   facing (moveEntityX lv ent dx) = facing ent \<and>
   moveEntityX lv ent dx =
     ent\<lparr>x := x (moveEntityX lv ent dx), vx := vx (moveEntityX lv ent dx)\<rparr>"
  by (simp add: moveEntityX_def Let_def split: option.split prod.split)

lemma set_scanCells:
  "set (scanCells tp bt lf rt) = {(cc, rr). lf \<le> cc \<and> cc \<le> rt \<and> tp \<le> rr \<and> rr \<le> bt}"
  by (auto simp: scanCells_def)

lemma find_Some_mem: "List.find P xs = Some a \<Longrightarrow> P a \<and> a \<in> set xs"
  by (induction xs) (auto split: if_splits)

lemma firstSolid_Some:
  assumes "firstSolid lv tp bt lf rt = Some (cc, rr)"
  shows "isSolidAtColRow lv cc rr" "lf \<le> cc" "cc \<le> rt" "tp \<le> rr" "rr \<le> bt"
proof -
  from assms have "isSolidAtColRow lv cc rr \<and> (cc, rr) \<in> set (scanCells tp bt lf rt)"
    unfolding firstSolid_def by (auto dest: find_Some_mem)
  then show "isSolidAtColRow lv cc rr" "lf \<le> cc" "cc \<le> rt" "tp \<le> rr" "rr \<le> bt"
    by (auto simp: set_scanCells)
qed

lemma firstSolid_None:
  "firstSolid lv tp bt lf rt = None \<longleftrightarrow>
     (\<forall>cc rr. lf \<le> cc \<and> cc \<le> rt \<and> tp \<le> rr \<and> rr \<le> bt \<longrightarrow> \<not> isSolidAtColRow lv cc rr)"
  unfolding firstSolid_def by (auto simp: find_None_iff set_scanCells)

text \<open>Every scanned column (row) index names a cell that the box overlaps on that axis.\<close>

lemma span_overlap:
  fixes a b :: real
  assumes "\<lfloor>a / TILE\<rfloor> \<le> k" "k \<le> \<lfloor>(a + b - 1) / TILE\<rfloor>"
  shows "of_int k * TILE < a + b" "a < of_int k * TILE + TILE"
proof -
  from assms(2) have "of_int k \<le> (a + b - 1) / TILE" by (simp add: le_floor_iff)
  then show "of_int k * TILE < a + b" by (simp add: TILE_def field_simps)
  from assms(1) have "a / TILE < of_int k + 1" by (simp add: floor_le_iff)
  then show "a < of_int k * TILE + TILE" by (simp add: TILE_def field_simps)
qed

lemma hitCell_Some:
  assumes "hitCell lv ent = Some (cc, rr)"
  shows "isSolidAtColRow lv cc rr" "rectsIntersect (playerBox ent) (cellBox cc rr)"
proof -
  from assms have fs: "firstSolid lv \<lfloor>y ent / TILE\<rfloor> \<lfloor>(y ent + h ent - 1) / TILE\<rfloor>
      \<lfloor>x ent / TILE\<rfloor> \<lfloor>(x ent + w ent - 1) / TILE\<rfloor> = Some (cc, rr)"
    by (simp add: hitCell_def Let_def)
  from firstSolid_Some[OF fs] show "isSolidAtColRow lv cc rr" by simp
  from firstSolid_Some[OF fs] span_overlap[of "x ent" cc "w ent"] span_overlap[of "y ent" rr "h ent"]
  show "rectsIntersect (playerBox ent) (cellBox cc rr)"
    by (simp add: rectsIntersect_def playerBox_def cellBox_def)
qed

lemma hitCell_free:
  assumes "\<forall>cc rr. isSolidAtColRow lv cc rr \<longrightarrow> \<not> rectsIntersect (playerBox ent) (cellBox cc rr)"
  shows "hitCell lv ent = None"
proof (cases "hitCell lv ent")
  case None
  then show ?thesis .
next
  case (Some cell)
  obtain cc rr where "cell = (cc, rr)" by (cases cell)
  with Some hitCell_Some[of lv ent cc rr] assms show ?thesis by blast
qed

lemma ledgeLevel_solid: "isSolidAtColRow ledgeLevel cc rr \<longleftrightarrow> cc = 0 \<and> rr = 1"
proof -
  have "rr = 0 \<or> rr = 1" if "0 \<le> rr" "rr < 2" using that by auto
  then show ?thesis
    by (auto simp: isSolid_iff ledgeLevel_def nth_Cons split: nat.splits)
qed

text \<open>
  Claim C6. The vertical resolver called with \<open>dy = 0\<close> leaves the position as it is and
  still sets \<open>onGround\<close> from the scan: the result is the entity with \<open>onGround\<close> cleared
  when the scan meets no solid cell, and the entity unchanged otherwise. In particular
  \<open>onGround\<close> is \<open>False\<close> afterwards whenever the entity's box overlaps no solid cell.
\<close>

theorem moveEntityY_zero:
  "x (moveEntityY lv ent 0) = x ent \<and> y (moveEntityY lv ent 0) = y ent \<and>
   moveEntityY lv ent 0 = (if hitCell lv ent = None then ent\<lparr>onGround := False\<rparr> else ent) \<and>
   ((\<forall>cc rr. isSolidAtColRow lv cc rr \<longrightarrow> \<not> rectsIntersect (playerBox ent) (cellBox cc rr))
      \<longrightarrow> onGround (moveEntityY lv ent 0) = False)"
proof -
  have eq: "moveEntityY lv ent 0 = (if hitCell lv ent = None then ent\<lparr>onGround := False\<rparr> else ent)"
    by (simp add: moveEntityY_def split: option.split)
  show ?thesis
    using hitCell_free[of lv ent] by (auto simp: eq)
qed

text \<open>
  A player that has just walked off the ledge of \<open>ledgeLevel\<close>: its box lies in column 1,
  beside and above the only solid cell \<open>(0, 1)\<close>, with \<open>onGround\<close> still set.
\<close>

theorem moveEntityY_zero_witness:
  "onGround (moveEntityY ledgeLevel (initPlayer\<lparr>x := 54, y := 6, onGround := True\<rparr>) 0) = False \<and>
   x (moveEntityY ledgeLevel (initPlayer\<lparr>x := 54, y := 6, onGround := True\<rparr>) 0) = 54 \<and>
   y (moveEntityY ledgeLevel (initPlayer\<lparr>x := 54, y := 6, onGround := True\<rparr>) 0) = 6"
proof -
  have free: "\<forall>cc rr. isSolidAtColRow ledgeLevel cc rr \<longrightarrow>
      \<not> rectsIntersect (playerBox (initPlayer\<lparr>x := 54, y := 6, onGround := True\<rparr>)) (cellBox cc rr)"
    by (simp add: ledgeLevel_solid rectsIntersect_def playerBox_def cellBox_def initPlayer_def TILE_def)
  from moveEntityY_zero[of ledgeLevel "initPlayer\<lparr>x := 54, y := 6, onGround := True\<rparr>"] free
  have "onGround (moveEntityY ledgeLevel (initPlayer\<lparr>x := 54, y := 6, onGround := True\<rparr>) 0) = False"
    and "x (moveEntityY ledgeLevel (initPlayer\<lparr>x := 54, y := 6, onGround := True\<rparr>) 0) =
         x (initPlayer\<lparr>x := 54, y := 6, onGround := True\<rparr>)"
    and "y (moveEntityY ledgeLevel (initPlayer\<lparr>x := 54, y := 6, onGround := True\<rparr>) 0) =
         y (initPlayer\<lparr>x := 54, y := 6, onGround := True\<rparr>)"
    by blast+
  then show ?thesis by simp
qed

lemma clearOf_iff:
  "clearOf lv b \<longleftrightarrow>
     (\<forall>cc rr. isSolidAtColRow lv cc rr \<longrightarrow> \<not> rectsIntersect b (cellBox cc rr))"
proof
  assume cl: "clearOf lv b"
  show "\<forall>cc rr. isSolidAtColRow lv cc rr \<longrightarrow> \<not> rectsIntersect b (cellBox cc rr)"
  proof (intro allI impI)
    fix cc rr
    assume solid: "isSolidAtColRow lv cc rr"
    then have "0 \<le> rr" "rr < int (length lv)" "0 \<le> cc" "nat cc < length (lv ! nat rr)"
      by (simp_all add: isSolid_iff)
    moreover from this have "nat cc < cols lv"
      using row_length_le_cols[of "nat rr" lv] by linarith
    ultimately have "(cc, rr) \<in> set (scanCells 0 (int (rows lv) - 1) 0 (int (cols lv) - 1))"
      by (simp add: set_scanCells rows_def)
    with cl solid show "\<not> rectsIntersect b (cellBox cc rr)"
      by (auto simp: clearOf_def list_all_iff)
  qed
next
  assume "\<forall>cc rr. isSolidAtColRow lv cc rr \<longrightarrow> \<not> rectsIntersect b (cellBox cc rr)"
  then show "clearOf lv b"
    by (auto simp: clearOf_def list_all_iff)
qed

lemma tile_next:
  assumes "(of_int a :: real) * TILE < of_int b * TILE"
  shows "(of_int a :: real) * TILE + TILE \<le> of_int b * TILE"
proof -
  from assms have "a < b" by (simp add: TILE_def)
  then have "a + 1 \<le> b" by simp
  then have "(of_int (a + 1) :: real) \<le> of_int b" by (simp only: of_int_le_iff)
  then show ?thesis by (simp add: TILE_def)
qed

text \<open>One axis, movement in the positive direction, clamped to the near edge of cell \<open>k\<close>.\<close>

lemma clamp_forward_clear:
  fixes a0 a1 s :: real and k k' :: int
  assumes move: "a0 < a1" "a1 - a0 \<le> TILE"
    and scan: "of_int k * TILE < a1 + s" "a1 < of_int k * TILE + TILE"
    and clear: "a0 + s \<le> of_int k * TILE \<or> a0 \<ge> of_int k * TILE + TILE"
    and clear': "a0 + s \<le> of_int k' * TILE \<or> a0 \<ge> of_int k' * TILE + TILE"
  shows "(of_int k * TILE - s) + s \<le> of_int k' * TILE \<or>
         of_int k * TILE - s \<ge> of_int k' * TILE + TILE"
proof (rule ccontr)
  assume "\<not> ?thesis"
  then have lt: "of_int k' * TILE < of_int k * TILE"
    and ov: "of_int k * TILE - s < of_int k' * TILE + TILE" by auto
  from tile_next[OF lt] have nx: "of_int k' * TILE + TILE \<le> of_int k * TILE" .
  from clear move scan have a0: "a0 + s \<le> of_int k * TILE" by linarith
  from clear' a0 ov have "a0 + s \<le> of_int k' * TILE" by linarith
  with nx scan move show False by linarith
qed

lemma clamp_backward_clear:
  fixes a0 a1 s :: real and k k' :: int
  assumes move: "a1 < a0" "a0 - a1 \<le> TILE"
    and scan: "of_int k * TILE < a1 + s" "a1 < of_int k * TILE + TILE"
    and clear: "a0 + s \<le> of_int k * TILE \<or> a0 \<ge> of_int k * TILE + TILE"
    and clear': "a0 + s \<le> of_int k' * TILE \<or> a0 \<ge> of_int k' * TILE + TILE"
  shows "(of_int k * TILE + TILE) + s \<le> of_int k' * TILE \<or>
         of_int k * TILE + TILE \<ge> of_int k' * TILE + TILE"
proof (rule ccontr)
  assume "\<not> ?thesis"
  then have ov: "of_int k' * TILE < of_int k * TILE + TILE + s"
    and lt: "of_int k * TILE < of_int k' * TILE" by auto
  from tile_next[OF lt] have nx: "of_int k * TILE + TILE \<le> of_int k' * TILE" .
  from clear move scan have a0: "a0 \<ge> of_int k * TILE + TILE" by linarith
  from clear' a0 ov have "a0 \<ge> of_int k' * TILE + TILE" by linarith
  with nx scan move show False by linarith
qed


lemma overlap_iff:
  "rectsIntersect (playerBox e) (cellBox cc rr) \<longleftrightarrow>
     of_int cc * TILE < x e + w e \<and> x e < of_int cc * TILE + TILE \<and>
     of_int rr * TILE < y e + h e \<and> y e < of_int rr * TILE + TILE"
  by (auto simp: rectsIntersect_def playerBox_def cellBox_def)

lemma moveEntityX_hit:
  assumes "hitCell lv (ent\<lparr>x := x ent + dx\<rparr>) = Some (cc, rr)"
  shows "x (moveEntityX lv ent dx) =
           (if dx > 0 then of_int cc * TILE - w ent
            else if dx < 0 then of_int cc * TILE + TILE else x ent + dx)"
    and "y (moveEntityX lv ent dx) = y ent" and "w (moveEntityX lv ent dx) = w ent"
    and "h (moveEntityX lv ent dx) = h ent" and "vx (moveEntityX lv ent dx) = 0"
  using assms by (simp_all add: moveEntityX_def Let_def)

lemma moveEntityY_hit:
  assumes "hitCell lv (ent\<lparr>y := y ent + dy\<rparr>) = Some (cc, rr)"
  shows "y (moveEntityY lv ent dy) =
           (if dy > 0 then of_int rr * TILE - h ent
            else if dy < 0 then of_int rr * TILE + TILE else y ent + dy)"
    and "x (moveEntityY lv ent dy) = x ent" and "w (moveEntityY lv ent dy) = w ent"
    and "h (moveEntityY lv ent dy) = h ent"
    and "dy \<noteq> 0 \<Longrightarrow> vy (moveEntityY lv ent dy) = 0"
    and "dy > 0 \<Longrightarrow> onGround (moveEntityY lv ent dy)"
  using assms by (simp_all add: moveEntityY_def Let_def)

lemma moveEntityX_clear:
  assumes clear: "\<forall>cc' rr'. isSolidAtColRow lv cc' rr' \<longrightarrow>
                    \<not> rectsIntersect (playerBox ent) (cellBox cc' rr')"
    and small: "\<bar>dx\<bar> \<le> TILE"
    and hit: "hitCell lv (ent\<lparr>x := x ent + dx\<rparr>) = Some (cc, rr)"
  shows "dx \<noteq> 0"
    and "\<forall>cc' rr'. isSolidAtColRow lv cc' rr' \<longrightarrow>
           \<not> rectsIntersect (playerBox (moveEntityX lv ent dx)) (cellBox cc' rr')"
proof -
  let ?e1 = "ent\<lparr>x := x ent + dx\<rparr>"
  note res = moveEntityX_hit[OF hit]
  from hitCell_Some[OF hit] have solid: "isSolidAtColRow lv cc rr"
    and ov: "rectsIntersect (playerBox ?e1) (cellBox cc rr)" by simp_all
  from ov have scan: "of_int cc * TILE < x ent + dx + w ent" "x ent + dx < of_int cc * TILE + TILE"
    "of_int rr * TILE < y ent + h ent" "y ent < of_int rr * TILE + TILE"
    by (simp_all add: overlap_iff)
  from clear solid have "\<not> rectsIntersect (playerBox ent) (cellBox cc rr)" by blast
  with scan(3,4) have cl: "x ent + w ent \<le> of_int cc * TILE \<or> x ent \<ge> of_int cc * TILE + TILE"
    by (simp add: overlap_iff) linarith
  with scan(1,2) show nz: "dx \<noteq> 0" by auto
  show "\<forall>cc' rr'. isSolidAtColRow lv cc' rr' \<longrightarrow>
           \<not> rectsIntersect (playerBox (moveEntityX lv ent dx)) (cellBox cc' rr')"
  proof (intro allI impI)
    fix cc' rr'
    assume "isSolidAtColRow lv cc' rr'"
    with clear have free: "\<not> rectsIntersect (playerBox ent) (cellBox cc' rr')" by blast
    show "\<not> rectsIntersect (playerBox (moveEntityX lv ent dx)) (cellBox cc' rr')"
    proof (cases "of_int rr' * TILE < y ent + h ent \<and> y ent < of_int rr' * TILE + TILE")
      case False
      then show ?thesis by (auto simp: overlap_iff res)
    next
      case True
      with free have cl': "x ent + w ent \<le> of_int cc' * TILE \<or> x ent \<ge> of_int cc' * TILE + TILE"
        by (simp add: overlap_iff) linarith
      show ?thesis
      proof (cases "dx > 0")
        case True
        with small have mv: "x ent < x ent + dx" "x ent + dx - x ent \<le> TILE" by simp_all
        from clamp_forward_clear[OF mv scan(1,2) cl cl'] True show ?thesis
          by (simp add: overlap_iff res) linarith
      next
        case False
        with nz small have mv: "x ent + dx < x ent" "x ent - (x ent + dx) \<le> TILE" by simp_all
        from clamp_backward_clear[OF mv scan(1,2) cl cl'] False nz show ?thesis
          by (simp add: overlap_iff res) linarith
      qed
    qed
  qed
qed

lemma moveEntityY_clear:
  assumes clear: "\<forall>cc' rr'. isSolidAtColRow lv cc' rr' \<longrightarrow>
                    \<not> rectsIntersect (playerBox ent) (cellBox cc' rr')"
    and small: "\<bar>dy\<bar> \<le> TILE"
    and hit: "hitCell lv (ent\<lparr>y := y ent + dy\<rparr>) = Some (cc, rr)"
  shows "dy \<noteq> 0"
    and "\<forall>cc' rr'. isSolidAtColRow lv cc' rr' \<longrightarrow>
           \<not> rectsIntersect (playerBox (moveEntityY lv ent dy)) (cellBox cc' rr')"
proof -
  let ?e1 = "ent\<lparr>y := y ent + dy\<rparr>"
  note res = moveEntityY_hit(1-4)[OF hit]
  from hitCell_Some[OF hit] have solid: "isSolidAtColRow lv cc rr"
    and ov: "rectsIntersect (playerBox ?e1) (cellBox cc rr)" by simp_all
  from ov have scan: "of_int rr * TILE < y ent + dy + h ent" "y ent + dy < of_int rr * TILE + TILE"
    "of_int cc * TILE < x ent + w ent" "x ent < of_int cc * TILE + TILE"
    by (simp_all add: overlap_iff)
  from clear solid have "\<not> rectsIntersect (playerBox ent) (cellBox cc rr)" by blast
  with scan(3,4) have cl: "y ent + h ent \<le> of_int rr * TILE \<or> y ent \<ge> of_int rr * TILE + TILE"
    by (simp add: overlap_iff) linarith
  with scan(1,2) show nz: "dy \<noteq> 0" by auto
  show "\<forall>cc' rr'. isSolidAtColRow lv cc' rr' \<longrightarrow>
           \<not> rectsIntersect (playerBox (moveEntityY lv ent dy)) (cellBox cc' rr')"
  proof (intro allI impI)
    fix cc' rr'
    assume "isSolidAtColRow lv cc' rr'"
    with clear have free: "\<not> rectsIntersect (playerBox ent) (cellBox cc' rr')" by blast
    show "\<not> rectsIntersect (playerBox (moveEntityY lv ent dy)) (cellBox cc' rr')"
    proof (cases "of_int cc' * TILE < x ent + w ent \<and> x ent < of_int cc' * TILE + TILE")
      case False
      then show ?thesis by (auto simp: overlap_iff res)
    next
      case True
      with free have cl': "y ent + h ent \<le> of_int rr' * TILE \<or> y ent \<ge> of_int rr' * TILE + TILE"
        by (simp add: overlap_iff) linarith
      show ?thesis
      proof (cases "dy > 0")
        case True
        with small have mv: "y ent < y ent + dy" "y ent + dy - y ent \<le> TILE" by simp_all
        from clamp_forward_clear[OF mv scan(1,2) cl cl'] True show ?thesis
          by (simp add: overlap_iff res) linarith
      next
        case False
        with nz small have mv: "y ent + dy < y ent" "y ent - (y ent + dy) \<le> TILE" by simp_all
        from clamp_backward_clear[OF mv scan(1,2) cl cl'] False nz show ?thesis
          by (simp add: overlap_iff res) linarith
      qed
    qed
  qed
qed

text \<open>
  Free fall in \<open>shaftLevel\<close>: the solid cells are in rows 23 and 24, so a box that ends
  above row 23 meets none; each of the first 23 frames without input only adds gravity
  and moves the player down.
\<close>

lemma shaft_parse:
  "player (parseLevel shaftLevel) = initPlayer" "lives (parseLevel shaftLevel) = 3"
  "coins (parseLevel shaftLevel) = []" "enemies (parseLevel shaftLevel) = []"
  "worldH shaftLevel = 1200"
  by code_simp+

lemma shaft_solid:
  assumes "isSolidAtColRow shaftLevel cc rr"
  shows "23 \<le> rr"
proof (rule ccontr)
  assume "\<not> 23 \<le> rr"
  moreover from assms have "0 \<le> rr" and hash: "nat cc < length (shaftLevel ! nat rr)"
    "shaftLevel ! nat rr ! nat cc = CHR ''#''"
    by (simp_all add: isSolid_iff)
  ultimately have "nat rr < 23" by simp
  then have "shaftLevel ! nat rr = ''   ''"
    by (simp add: shaftLevel_def nth_append)
  with hash have "CHR ''#'' \<in> set ''   ''"
    by (metis nth_mem)
  then show False by simp
qed

lemma shaft_free:
  assumes "y e + h e \<le> 1104"
  shows "hitCell shaftLevel e = None"
proof (rule hitCell_free, intro allI impI)
  fix cc rr
  assume "isSolidAtColRow shaftLevel cc rr"
  then have "23 \<le> rr" by (rule shaft_solid)
  then have "(23 :: real) \<le> of_int rr" by simp
  with assms have "y e + h e \<le> of_int rr * TILE" by (simp add: TILE_def)
  then show "\<not> rectsIntersect (playerBox e) (cellBox cc rr)"
    by (simp add: overlap_iff)
qed

lemma fall_bound:
  assumes "k < 23"
  shows "48 / 25 * real (Suc k * (Suc k + 1)) + 42 \<le> (1104 :: real)"
proof -
  define n where "n = Suc k * (Suc k + 1)"
  from assms have "n \<le> 23 * 24"
    unfolding n_def by (intro mult_le_mono) simp_all
  then have "real n \<le> 552" by simp
  then have "48 / 25 * real n + 42 \<le> (1104 :: real)" by simp
  then show ?thesis by (simp only: n_def)
qed

lemma fall_next:
  "48 / 25 * real (k * (k + 1)) + (96 * real k + 96) * (1 / 25) =
   48 / 25 * real (Suc k * (Suc k + 1))"
  by (simp add: field_simps)

lemma fall_step:
  assumes "k < 23"
  shows "movePlayer shaftLevel noKeys (1 / 25) (fallP k) = fallP (Suc k)"
proof -
  define a where "a = 48 / 25 * real (k * (k + 1))"
  define b where "b = 48 / 25 * real (Suc k * (Suc k + 1))"
  let ?p4 = "(fallP k)\<lparr>vx := 0, vy := 96 * real k + 96\<rparr>"
  have pk: "fallP k = initPlayer\<lparr>y := a, vy := 96 * real k\<rparr>"
    by (simp only: fallP_def a_def)
  have pn: "fallP (Suc k) = initPlayer\<lparr>y := b, vy := 96 * real (Suc k)\<rparr>"
    by (simp only: fallP_def b_def)
  have ab: "a + (96 * real k + 96) * (1 / 25) = b"
    unfolding a_def b_def by (rule fall_next)
  have "0 \<le> (96 * real k + 96) * (1 / 25)" by simp
  with ab have "a \<le> b" by linarith
  moreover have bb: "b + 42 \<le> 1104"
    unfolding b_def by (rule fall_bound[OF assms])
  ultimately have aa: "a + 42 \<le> 1104" by linarith
  have h1: "hitCell shaftLevel (?p4\<lparr>x := x ?p4 + vx ?p4 * (1 / 25)\<rparr>) = None"
    using aa by (intro shaft_free) (simp add: pk initPlayer_def)
  have h2: "hitCell shaftLevel (?p4\<lparr>y := b\<rparr>) = None"
    using bb by (intro shaft_free) (simp add: pk initPlayer_def)
  have mx: "moveEntityX shaftLevel ?p4 (vx ?p4 * (1 / 25)) = ?p4"
    using h1 by (simp add: moveEntityX_def)
  have yb: "y ?p4 + vy ?p4 * (1 / 25) = b"
    using ab by (simp add: pk)
  have my: "moveEntityY shaftLevel ?p4 (vy ?p4 * (1 / 25)) = ?p4\<lparr>y := b, onGround := False\<rparr>"
    unfolding moveEntityY_def Let_def yb using h2 by simp
  have "movePlayer shaftLevel noKeys (1 / 25) (fallP k) =
      moveEntityY shaftLevel ?p4 (vy ?p4 * (1 / 25))"
    using mx by (simp add: movePlayer_def noKeys_def Let_def GRAV_def pk initPlayer_def)
  also have "\<dots> = fallP (Suc k)"
    unfolding my by (simp add: pk pn initPlayer_def algebra_simps)
  finally show ?thesis .
qed

lemma update_empty:
  assumes "coins wd = []" "enemies wd = []" "alive (player wd)"
    "y (movePlayer lv ks dt (player wd)) \<le> worldH lv + 500"
  shows "update lv ks dt wd = wd\<lparr>player := movePlayer lv ks dt (player wd)\<rparr>"
  using assms by (simp add: update_def collectCoins_def updateEnemies_def voidFall_def)

lemma shaft_fall:
  "k \<le> 23 \<Longrightarrow>
   ((update shaftLevel noKeys (1 / 25)) ^^ k) (parseLevel shaftLevel) =
     (parseLevel shaftLevel)\<lparr>player := fallP k\<rparr>"
proof (induction k)
  case 0
  have "fallP 0 = initPlayer" by (simp add: fallP_def initPlayer_def)
  then show ?case using shaft_parse(1) by simp
next
  case (Suc k)
  then have k: "k < 23" by simp
  let ?w = "(parseLevel shaftLevel)\<lparr>player := fallP k\<rparr>"
  have "y (fallP (Suc k)) \<le> worldH shaftLevel + 500"
    using fall_bound[OF k] by (simp add: fallP_def initPlayer_def shaft_parse)
  then have "update shaftLevel noKeys (1 / 25) ?w = ?w\<lparr>player := fallP (Suc k)\<rparr>"
    using fall_step[OF k] by (subst update_empty) (simp_all add: shaft_parse fallP_def initPlayer_def)
  with Suc.IH k show ?case by simp
qed

text \<open>
  Claim C5, as stated, fails in two ways. (1) The delta can exceed a tile: in \<open>shaftLevel\<close>
  the player, left alone for 23 frames of 0.04 s, is still clear of every solid cell; the
  24th frame moves it down by 92.16, the scan starts below the upper floor row and finds
  cell \<open>(2, 24)\<close>, and the clamped box lies inside the solid cell \<open>(2, 23)\<close>. (2) The box
  can overlap a solid cell before the call: in \<open>buriedLevel\<close> the player starts inside
  the solid cell \<open>(2, 0)\<close>; the first frame calls the horizontal resolver with delta 0,
  which detects that cell and leaves the box where it is.
\<close>

theorem resolver_overlap_counterexample:
  "((update shaftLevel noKeys (1 / 25)) ^^ 23) (parseLevel shaftLevel) = shaftFall \<and>
   alive (player shaftFall) \<and>
   movePlayer shaftLevel noKeys (1 / 25) (player shaftFall) =
     moveEntityY shaftLevel shaftDrop (vy shaftDrop * (1 / 25)) \<and>
   vy shaftDrop * (1 / 25) = 2304 / 25 \<and> TILE < 2304 / 25 \<and>
   clearOf shaftLevel (playerBox shaftDrop) \<and>
   hitCell shaftLevel (shaftDrop\<lparr>y := y shaftDrop + 2304 / 25\<rparr>) = Some (2, 24) \<and>
   y (moveEntityY shaftLevel shaftDrop (2304 / 25)) + h (moveEntityY shaftLevel shaftDrop (2304 / 25))
     = 24 * TILE \<and>
   isSolidAtColRow shaftLevel 2 23 \<and>
   rectsIntersect (playerBox (moveEntityY shaftLevel shaftDrop (2304 / 25))) (cellBox 2 23) \<and>
   rectsIntersect (playerBox (player (update shaftLevel noKeys (1 / 25) shaftFall))) (cellBox 2 23) \<and>
   player (parseLevel buriedLevel) = initPlayer \<and>
   \<not> clearOf buriedLevel (playerBox initPlayer) \<and>
   movePlayer buriedLevel noKeys (1 / 25) initPlayer =
     moveEntityY buriedLevel (moveEntityX buriedLevel buriedDrop (vx buriedDrop * (1 / 25)))
       (vy buriedDrop * (1 / 25)) \<and>
   vx buriedDrop * (1 / 25) = 0 \<and>
   hitCell buriedLevel (buriedDrop\<lparr>x := x buriedDrop + 0\<rparr>) = Some (2, 0) \<and>
   moveEntityX buriedLevel buriedDrop 0 = buriedDrop \<and>
   isSolidAtColRow buriedLevel 2 0 \<and>
   rectsIntersect (playerBox (moveEntityX buriedLevel buriedDrop 0)) (cellBox 2 0)"
proof -
  have reach: "((update shaftLevel noKeys (1 / 25)) ^^ 23) (parseLevel shaftLevel) = shaftFall"
    unfolding shaftFall_def by (rule shaft_fall) simp
  have rest: "alive (player shaftFall) \<and>
   movePlayer shaftLevel noKeys (1 / 25) (player shaftFall) =
     moveEntityY shaftLevel shaftDrop (vy shaftDrop * (1 / 25)) \<and>
   vy shaftDrop * (1 / 25) = 2304 / 25 \<and> TILE < 2304 / 25 \<and>
   clearOf shaftLevel (playerBox shaftDrop) \<and>
   hitCell shaftLevel (shaftDrop\<lparr>y := y shaftDrop + 2304 / 25\<rparr>) = Some (2, 24) \<and>
   y (moveEntityY shaftLevel shaftDrop (2304 / 25)) + h (moveEntityY shaftLevel shaftDrop (2304 / 25))
     = 24 * TILE \<and>
   isSolidAtColRow shaftLevel 2 23 \<and>
   rectsIntersect (playerBox (moveEntityY shaftLevel shaftDrop (2304 / 25))) (cellBox 2 23) \<and>
   rectsIntersect (playerBox (player (update shaftLevel noKeys (1 / 25) shaftFall))) (cellBox 2 23) \<and>
   player (parseLevel buriedLevel) = initPlayer \<and>
   \<not> clearOf buriedLevel (playerBox initPlayer) \<and>
   movePlayer buriedLevel noKeys (1 / 25) initPlayer =
     moveEntityY buriedLevel (moveEntityX buriedLevel buriedDrop (vx buriedDrop * (1 / 25)))
       (vy buriedDrop * (1 / 25)) \<and>
   vx buriedDrop * (1 / 25) = 0 \<and>
   hitCell buriedLevel (buriedDrop\<lparr>x := x buriedDrop + 0\<rparr>) = Some (2, 0) \<and>
   moveEntityX buriedLevel buriedDrop 0 = buriedDrop \<and>
   isSolidAtColRow buriedLevel 2 0 \<and>
   rectsIntersect (playerBox (moveEntityX buriedLevel buriedDrop 0)) (cellBox 2 0)"
    by code_simp
  from reach rest show ?thesis by (rule conjI)
qed

text \<open>
  Claim C5, amended. If the entity's box overlaps no solid cell before the call and the
  delta is at most one tile in size, then after a resolver call that detects a solid
  cell \<open>(cc, rr)\<close> the box is exactly flush with that cell's edge in the direction of the
  movement (the delta is then nonzero) and overlaps no solid cell, and the velocity
  component of the axis is zero; a downward resolution sets \<open>onGround\<close>.
\<close>

theorem resolver_flush:
  "(\<forall>cc' rr'. isSolidAtColRow lv cc' rr' \<longrightarrow>
       \<not> rectsIntersect (playerBox ent) (cellBox cc' rr')) \<longrightarrow>
   (\<bar>dx\<bar> \<le> TILE \<and> hitCell lv (ent\<lparr>x := x ent + dx\<rparr>) = Some (cc, rr) \<longrightarrow>
      (dx > 0 \<longrightarrow> x (moveEntityX lv ent dx) + w (moveEntityX lv ent dx) = of_int cc * TILE) \<and>
      (dx < 0 \<longrightarrow> x (moveEntityX lv ent dx) = of_int cc * TILE + TILE) \<and>
      dx \<noteq> 0 \<and> isSolidAtColRow lv cc rr \<and>
      (\<forall>cc' rr'. isSolidAtColRow lv cc' rr' \<longrightarrow>
         \<not> rectsIntersect (playerBox (moveEntityX lv ent dx)) (cellBox cc' rr')) \<and>
      vx (moveEntityX lv ent dx) = 0) \<and>
   (\<bar>dy\<bar> \<le> TILE \<and> hitCell lv (ent\<lparr>y := y ent + dy\<rparr>) = Some (cc, rr) \<longrightarrow>
      (dy > 0 \<longrightarrow> y (moveEntityY lv ent dy) + h (moveEntityY lv ent dy) = of_int rr * TILE \<and>
                 onGround (moveEntityY lv ent dy)) \<and>
      (dy < 0 \<longrightarrow> y (moveEntityY lv ent dy) = of_int rr * TILE + TILE) \<and>
      dy \<noteq> 0 \<and> isSolidAtColRow lv cc rr \<and>
      (\<forall>cc' rr'. isSolidAtColRow lv cc' rr' \<longrightarrow>
         \<not> rectsIntersect (playerBox (moveEntityY lv ent dy)) (cellBox cc' rr')) \<and>
      vy (moveEntityY lv ent dy) = 0)"
proof (intro impI conjI)
  assume clear: "\<forall>cc' rr'. isSolidAtColRow lv cc' rr' \<longrightarrow>
       \<not> rectsIntersect (playerBox ent) (cellBox cc' rr')"
  {
    assume a: "\<bar>dx\<bar> \<le> TILE \<and> hitCell lv (ent\<lparr>x := x ent + dx\<rparr>) = Some (cc, rr)"
    then have small: "\<bar>dx\<bar> \<le> TILE" and hit: "hitCell lv (ent\<lparr>x := x ent + dx\<rparr>) = Some (cc, rr)"
      by simp_all
    note res = moveEntityX_hit[OF hit]
    show "dx \<noteq> 0" by (rule moveEntityX_clear(1)[OF clear small hit])
    show "\<forall>cc' rr'. isSolidAtColRow lv cc' rr' \<longrightarrow>
         \<not> rectsIntersect (playerBox (moveEntityX lv ent dx)) (cellBox cc' rr')"
      by (rule moveEntityX_clear(2)[OF clear small hit])
    show "isSolidAtColRow lv cc rr" by (rule hitCell_Some(1)[OF hit])
    show "vx (moveEntityX lv ent dx) = 0" by (rule res(5))
    { assume "dx > 0"
      then show "x (moveEntityX lv ent dx) + w (moveEntityX lv ent dx) = of_int cc * TILE"
        by (simp add: res) }
    { assume "dx < 0"
      then show "x (moveEntityX lv ent dx) = of_int cc * TILE + TILE"
        by (simp add: res) }
  }
  {
    assume a: "\<bar>dy\<bar> \<le> TILE \<and> hitCell lv (ent\<lparr>y := y ent + dy\<rparr>) = Some (cc, rr)"
    then have small: "\<bar>dy\<bar> \<le> TILE" and hit: "hitCell lv (ent\<lparr>y := y ent + dy\<rparr>) = Some (cc, rr)"
      by simp_all
    note res = moveEntityY_hit[OF hit]
    show nz: "dy \<noteq> 0" by (rule moveEntityY_clear(1)[OF clear small hit])
    show "\<forall>cc' rr'. isSolidAtColRow lv cc' rr' \<longrightarrow>
         \<not> rectsIntersect (playerBox (moveEntityY lv ent dy)) (cellBox cc' rr')"
      by (rule moveEntityY_clear(2)[OF clear small hit])
    show "isSolidAtColRow lv cc rr" by (rule hitCell_Some(1)[OF hit])
    show "vy (moveEntityY lv ent dy) = 0" by (rule res(5)[OF nz])
    { assume "dy > 0"
      then show "y (moveEntityY lv ent dy) + h (moveEntityY lv ent dy) = of_int rr * TILE"
        and "onGround (moveEntityY lv ent dy)"
        by (simp_all add: res) }
    { assume "dy < 0"
      then show "y (moveEntityY lv ent dy) = of_int rr * TILE + TILE"
        by (simp add: res) }
  }
qed

text \<open>
  The entity \<open>walker\<close> inside \<open>roomLevel\<close>, clear of the walls, pushed against each of the
  four: right into cell \<open>(2, 1)\<close>, left into \<open>(0, 1)\<close>, down into \<open>(1, 2)\<close>, up into \<open>(1, 0)\<close>.
\<close>

theorem resolver_flush_witness:
  "x (moveEntityX roomLevel walker 10) + w (moveEntityX roomLevel walker 10) = 2 * TILE \<and>
   vx (moveEntityX roomLevel walker 10) = 0 \<and>
   clearOf roomLevel (playerBox (moveEntityX roomLevel walker 10)) \<and>
   x (moveEntityX roomLevel walker (- 10)) = 0 * TILE + TILE \<and>
   vx (moveEntityX roomLevel walker (- 10)) = 0 \<and>
   clearOf roomLevel (playerBox (moveEntityX roomLevel walker (- 10))) \<and>
   y (moveEntityY roomLevel walker 10) + h (moveEntityY roomLevel walker 10) = 2 * TILE \<and>
   vy (moveEntityY roomLevel walker 10) = 0 \<and> onGround (moveEntityY roomLevel walker 10) \<and>
   clearOf roomLevel (playerBox (moveEntityY roomLevel walker 10)) \<and>
   y (moveEntityY roomLevel walker (- 10)) = 0 * TILE + TILE \<and>
   vy (moveEntityY roomLevel walker (- 10)) = 0 \<and>
   clearOf roomLevel (playerBox (moveEntityY roomLevel walker (- 10)))"
proof -
  have "clearOf roomLevel (playerBox walker)" by code_simp
  then have clear: "\<forall>cc' rr'. isSolidAtColRow roomLevel cc' rr' \<longrightarrow>
      \<not> rectsIntersect (playerBox walker) (cellBox cc' rr')"
    by (simp only: clearOf_iff)
  have small: "\<bar>10 :: real\<bar> \<le> TILE" "\<bar>- 10 :: real\<bar> \<le> TILE"
    by (simp_all add: TILE_def)
  have hits:
    "hitCell roomLevel (walker\<lparr>x := x walker + 10\<rparr>) = Some (2, 1)"
    "hitCell roomLevel (walker\<lparr>x := x walker + (- 10)\<rparr>) = Some (0, 1)"
    "hitCell roomLevel (walker\<lparr>y := y walker + 10\<rparr>) = Some (1, 2)"
    "hitCell roomLevel (walker\<lparr>y := y walker + (- 10)\<rparr>) = Some (1, 0)"
    by code_simp+
  note right = resolver_flush[of roomLevel walker 10 2 1 10, THEN mp, OF clear,
      THEN conjunct1, THEN mp, OF conjI[OF small(1) hits(1)]]
  note left = resolver_flush[of roomLevel walker "- 10" 0 1 10, THEN mp, OF clear,
      THEN conjunct1, THEN mp, OF conjI[OF small(2) hits(2)]]
  note down = resolver_flush[of roomLevel walker 10 1 2 10, THEN mp, OF clear,
      THEN conjunct2, THEN mp, OF conjI[OF small(1) hits(3)]]
  note up = resolver_flush[of roomLevel walker 10 1 0 "- 10", THEN mp, OF clear,
      THEN conjunct2, THEN mp, OF conjI[OF small(2) hits(4)]]
  have r: "x (moveEntityX roomLevel walker 10) + w (moveEntityX roomLevel walker 10) = 2 * TILE"
    "vx (moveEntityX roomLevel walker 10) = 0"
    "clearOf roomLevel (playerBox (moveEntityX roomLevel walker 10))"
    using right by (simp_all add: clearOf_iff)
  have l: "x (moveEntityX roomLevel walker (- 10)) = 0 * TILE + TILE"
    "vx (moveEntityX roomLevel walker (- 10)) = 0"
    "clearOf roomLevel (playerBox (moveEntityX roomLevel walker (- 10)))"
    using left by (simp_all add: clearOf_iff)
  have d: "y (moveEntityY roomLevel walker 10) + h (moveEntityY roomLevel walker 10) = 2 * TILE"
    "vy (moveEntityY roomLevel walker 10) = 0" "onGround (moveEntityY roomLevel walker 10)"
    "clearOf roomLevel (playerBox (moveEntityY roomLevel walker 10))"
    using down by (simp_all add: clearOf_iff)
  have u: "y (moveEntityY roomLevel walker (- 10)) = 0 * TILE + TILE"
    "vy (moveEntityY roomLevel walker (- 10)) = 0"
    "clearOf roomLevel (playerBox (moveEntityY roomLevel walker (- 10)))"
    using up by (simp_all add: clearOf_iff)
  from r l d u show ?thesis by (intro conjI)
qed

section \<open>Properties of level parsing\<close>

lemma player_parseCell: "ch \<noteq> CHR ''P'' \<Longrightarrow> player (parseCell rr cc ch wd) = player wd"
  by (simp add: parseCell_def Let_def)

lemma player_fold_cells:
  "(\<And>cc. f cc \<noteq> CHR ''P'') \<Longrightarrow> player (fold (\<lambda>cc. parseCell rr cc (f cc)) cs wd) = player wd"
  by (induction cs arbitrary: wd) (simp_all add: player_parseCell)

lemma charOrSpace_cases: "charOrSpace s n \<in> set s \<or> charOrSpace s n = CHR '' ''"
  by (simp add: charOrSpace_def)

lemma player_parseRow:
  assumes "CHR ''P'' \<notin> set (lv ! rr)"
  shows "player (parseRow lv rr wd) = player wd"
proof -
  have "charOrSpace (lv ! rr) cc \<noteq> CHR ''P''" for cc
    using charOrSpace_cases[of "lv ! rr" cc] assms by auto
  then show ?thesis
    unfolding parseRow_def by (rule player_fold_cells)
qed

lemma player_fold_rows:
  "(\<And>rr. rr \<in> set rs \<Longrightarrow> CHR ''P'' \<notin> set (lv ! rr)) \<Longrightarrow>
     player (fold (parseRow lv) rs wd) = player wd"
  by (induction rs arbitrary: wd) (simp_all add: player_parseRow)

text \<open>
  Claim C9, as stated, fails: parsing has no failing branch. For a level without the
  marker \<open>P\<close> it returns a session whose player is the object literal, at the default
  position \<open>(96, 0)\<close>; so it does for a level without rows and for a level of empty rows.
\<close>

theorem parse_no_marker_counterexample:
  "CHR ''P'' \<notin> set (bareLevel ! 0) \<and> CHR ''P'' \<notin> set (bareLevel ! 1) \<and>
   player (parseLevel bareLevel) = initPlayer \<and>
   x (player (parseLevel bareLevel)) = 96 \<and> y (player (parseLevel bareLevel)) = 0 \<and>
   length (coins (parseLevel bareLevel)) = 1 \<and> length (tiles (parseLevel bareLevel)) = 4 \<and>
   lives (parseLevel bareLevel) = 3 \<and>
   parseLevel [] = initWorld \<and> parseLevel [''''] = initWorld"
  by code_simp

text \<open>
  Claim C9, amended. Construction from a level description that contains no \<open>P\<close> marker
  does not fail: it yields a session whose player is the default player, at
  \<open>(TILE * 2, 0)\<close>.
\<close>

theorem parse_no_marker_default:
  "(\<forall>row \<in> set lv. CHR ''P'' \<notin> set row) \<longrightarrow>
     player (parseLevel lv) = initPlayer \<and>
     x (player (parseLevel lv)) = TILE * 2 \<and> y (player (parseLevel lv)) = 0"
proof
  assume noP: "\<forall>row \<in> set lv. CHR ''P'' \<notin> set row"
  have "player (fold (parseRow lv) [0..<rows lv] initWorld) = player initWorld"
    by (rule player_fold_rows) (use noP in \<open>simp add: rows_def\<close>)
  then have "player (parseLevel lv) = initPlayer"
    by (simp add: parseLevel_def initWorld_def)
  then show "player (parseLevel lv) = initPlayer \<and>
     x (player (parseLevel lv)) = TILE * 2 \<and> y (player (parseLevel lv)) = 0"
    by (simp add: initPlayer_def)
qed

theorem parse_no_marker_default_witness:
  "player (parseLevel bareLevel) = initPlayer \<and>
   x (player (parseLevel bareLevel)) = TILE * 2 \<and> y (player (parseLevel bareLevel)) = 0"
proof -
  have "\<forall>row \<in> set bareLevel. CHR ''P'' \<notin> set row"
    by (simp add: bareLevel_def)
  with parse_no_marker_default[of bareLevel] show ?thesis by blast
qed

section \<open>Properties of respawn and restart\<close>

text \<open>
  Claim C1, as stated, fails: the respawn does not return to the spawn point of the \<open>P\<close>
  marker. In \<open>spawnLevel\<close> the marker puts the player at \<open>(54, 6)\<close>; a step that takes the
  falling player below the void limit with three lives leaves two lives and the player,
  alive, at \<open>(96, 0)\<close>.
\<close>

theorem respawn_counterexample:
  "x (player (parseLevel spawnLevel)) = 54 \<and> y (player (parseLevel spawnLevel)) = 6 \<and>
   lives falling = 3 \<and> alive (player falling) \<and>
   lives (update spawnLevel noKeys (1 / 25) falling) = 2 \<and>
   alive (player (update spawnLevel noKeys (1 / 25) falling)) \<and>
   x (player (update spawnLevel noKeys (1 / 25) falling)) = 96 \<and>
   y (player (update spawnLevel noKeys (1 / 25) falling)) = 0"
  by code_simp

text \<open>
  Claim C1, amended. A life loss that leaves at least one life puts the player at the
  fixed point \<open>(TILE * 2, 0)\<close> with both velocity components zero, takes one life, and
  leaves the coins, the enemies and the score as they are. Both life-loss sites run
  this block: the void-fall check when the player is below the limit, and the enemy
  loop for a living enemy that overlaps the player without being stomped (after that
  enemy's own patrol move).
\<close>

theorem respawn_resets:
  "(1 < lives wd \<longrightarrow>
      player (playerHurt wd) = (player wd)\<lparr>x := TILE * 2, y := 0, vx := 0, vy := 0\<rparr> \<and>
      lives (playerHurt wd) = lives wd - 1 \<and>
      coins (playerHurt wd) = coins wd \<and> enemies (playerHurt wd) = enemies wd \<and>
      score (playerHurt wd) = score wd) \<and>
   (y (player wd) > worldH lv + 500 \<longrightarrow> voidFall lv wd = playerHurt wd) \<and>
   (i < length (enemies wd) \<and> alive (enemies wd ! i) \<and>
    rectsIntersect (enemyBox (patrol lv dt (enemies wd ! i))) (playerBox (player wd)) \<and>
    \<not> stomps (player wd) (patrol lv dt (enemies wd ! i)) \<longrightarrow>
      enemyStep lv dt i wd =
        playerHurt (wd\<lparr>enemies := (enemies wd)[i := patrol lv dt (enemies wd ! i)]\<rparr>))"
  by (simp add: playerHurt_def voidFall_def enemyStep_def Let_def)

text \<open>The void-fall site on \<open>fallen\<close>, the enemy site on \<open>bumped\<close>; three lives each.\<close>

theorem respawn_resets_witness:
  "player (playerHurt fallen) = (player fallen)\<lparr>x := TILE * 2, y := 0, vx := 0, vy := 0\<rparr> \<and>
   lives (playerHurt fallen) = lives fallen - 1 \<and>
   coins (playerHurt fallen) = coins fallen \<and> enemies (playerHurt fallen) = enemies fallen \<and>
   score (playerHurt fallen) = score fallen \<and>
   voidFall spawnLevel fallen = playerHurt fallen \<and>
   enemyStep duelLevel (1 / 25) 0 bumped =
     playerHurt (bumped\<lparr>enemies := (enemies bumped)[0 := patrol duelLevel (1 / 25) (enemies bumped ! 0)]\<rparr>)"
proof -
  have pre: "1 < lives fallen" "y (player fallen) > worldH spawnLevel + 500"
    "0 < length (enemies bumped) \<and> alive (enemies bumped ! 0) \<and>
     rectsIntersect (enemyBox (patrol duelLevel (1 / 25) (enemies bumped ! 0))) (playerBox (player bumped)) \<and>
     \<not> stomps (player bumped) (patrol duelLevel (1 / 25) (enemies bumped ! 0))"
    by code_simp+
  note void = respawn_resets[of fallen spawnLevel 0 "1 / 25"]
  note hit = respawn_resets[of bumped duelLevel 0 "1 / 25"]
  note a = void[THEN conjunct1, THEN mp, OF pre(1)]
  note b = void[THEN conjunct2, THEN conjunct1, THEN mp, OF pre(2)]
  note c = hit[THEN conjunct2, THEN conjunct2, THEN mp, OF pre(3)]
  show ?thesis
    using a b c by (elim conjE, intro conjI) assumption+
qed

lemma fold_invariant:
  "(\<And>a s. P s \<Longrightarrow> P (f a s)) \<Longrightarrow> P s \<Longrightarrow> P (fold f xs s)"
  by (induction xs arbitrary: s) simp_all

text \<open>
  What the program does on restart (the R key and the button reload the page, which
  builds the session anew): for every level the fresh session has score 0, three
  lives, every coin unpicked, every enemy alive, and a living player at rest.
\<close>

lemma parse_fresh:
  "score (parseLevel lv) = 0 \<and> lives (parseLevel lv) = 3 \<and>
   list_all (\<lambda>cn. \<not> picked cn) (coins (parseLevel lv)) \<and>
   list_all alive (enemies (parseLevel lv)) \<and>
   alive (player (parseLevel lv)) \<and>
   vx (player (parseLevel lv)) = 0 \<and> vy (player (parseLevel lv)) = 0"
proof -
  let ?P = "\<lambda>wd. score wd = 0 \<and> lives wd = 3 \<and>
     list_all (\<lambda>cn. \<not> picked cn) (coins wd) \<and> list_all alive (enemies wd) \<and>
     alive (player wd) \<and> vx (player wd) = 0 \<and> vy (player wd) = 0"
  have cell: "?P (parseCell rr cc ch wd)" if "?P wd" for rr cc ch wd
    using that by (simp add: parseCell_def Let_def)
  have row: "?P (parseRow lv rr wd)" if "?P wd" for rr wd
    unfolding parseRow_def using cell that by (rule fold_invariant)
  have "?P initWorld"
    by (simp add: initWorld_def initPlayer_def)
  with row have "?P (fold (parseRow lv) [0..<rows lv] initWorld)"
    by (rule fold_invariant)
  then show ?thesis by (simp only: parseLevel_def)
qed


section \<open>Properties of the simulation step\<close>

text \<open>
  Claim C4, as stated, fails: the stomp test is one-sided. In \<open>grazing\<close> the falling
  player's bottom edge is 17 pixels above the enemy's vertical centre, so not within 16
  pixels of it, and the boxes overlap; the enemy is stomped all the same.
\<close>

theorem stomp_band_counterexample:
  "alive (enemies grazing ! 0) \<and>
   rectsIntersect (enemyBox (patrol duelLevel (1 / 25) (enemies grazing ! 0)))
     (playerBox (player grazing)) \<and>
   vy (player grazing) > 0 \<and>
   (y (enemies grazing ! 0) + h (enemies grazing ! 0) / 2) - (y (player grazing) + h (player grazing)) = 17 \<and>
   \<not> \<bar>(y (player grazing) + h (player grazing)) -
        (y (enemies grazing ! 0) + h (enemies grazing ! 0) / 2)\<bar> < 16 \<and>
   alive (enemies (enemyStep duelLevel (1 / 25) 0 grazing) ! 0) = False \<and>
   vy (player (enemyStep duelLevel (1 / 25) 0 grazing)) = - 360 \<and>
   score (enemyStep duelLevel (1 / 25) 0 grazing) = score grazing + 2 \<and>
   lives (enemyStep duelLevel (1 / 25) 0 grazing) = lives grazing"
  by code_simp

text \<open>
  Claim C4, amended. When the enemy loop processes a living enemy whose box (after its
  patrol move) overlaps the player's box, exactly one outcome follows, chosen by the
  test \<open>vy > 0\<close> and \<open>playerBottom - enemyCentreY < 16\<close> (the bottom edge less than 16
  pixels below the centre, or anywhere above it). If it holds, the stomp: the enemy
  dies, the player's \<open>vy\<close> becomes \<open>- JUMP_SPEED * 0.5\<close>, the score grows by 2, and nothing
  else changes. Otherwise the damage: one life is taken, the enemy stays alive, the
  score stays, and the player is marked dead where it stands when no life is left,
  and else put at \<open>(TILE * 2, 0)\<close> with zero velocity.
\<close>

theorem stomp_or_damage:
  "i < length (enemies wd) \<and> alive (enemies wd ! i) \<and>
   rectsIntersect (enemyBox (patrol lv dt (enemies wd ! i))) (playerBox (player wd)) \<longrightarrow>
     (if vy (player wd) > 0 \<and>
         (y (player wd) + h (player wd)) - (y (enemies wd ! i) + h (enemies wd ! i) / 2) < 16
      then enemyStep lv dt i wd =
             wd\<lparr>enemies := (enemies wd)[i := (patrol lv dt (enemies wd ! i))\<lparr>alive := False\<rparr>],
                player := (player wd)\<lparr>vy := - JUMP_SPEED * 0.5\<rparr>,
                score := score wd + 2\<rparr> \<and>
           alive (enemies (enemyStep lv dt i wd) ! i) = False \<and>
           vy (player (enemyStep lv dt i wd)) = - JUMP_SPEED * 0.5 \<and>
           score (enemyStep lv dt i wd) = score wd + 2 \<and>
           lives (enemyStep lv dt i wd) = lives wd
      else enemyStep lv dt i wd =
             wd\<lparr>enemies := (enemies wd)[i := patrol lv dt (enemies wd ! i)],
                lives := lives wd - 1,
                player := (if lives wd - 1 \<le> 0 then (player wd)\<lparr>alive := False\<rparr>
                           else (player wd)\<lparr>x := TILE * 2, y := 0, vx := 0, vy := 0\<rparr>)\<rparr> \<and>
           alive (enemies (enemyStep lv dt i wd) ! i) = True \<and>
           score (enemyStep lv dt i wd) = score wd \<and>
           lives (enemyStep lv dt i wd) = lives wd - 1 \<and>
           alive (player (enemyStep lv dt i wd)) = (alive (player wd) \<and> 1 < lives wd))"
proof -
  have py: "y (patrol lv dt en) = y en" "h (patrol lv dt en) = h en"
    "alive (patrol lv dt en) = alive en" for en
    by (simp_all add: patrol_def Let_def)
  show ?thesis
    by (auto simp: enemyStep_def Let_def stomps_def py playerHurt_def)
qed

text \<open>The stomp on \<open>landing\<close>, the damage with respawn on \<open>bumped\<close>, the fatal damage on \<open>bumpedLast\<close>.\<close>

theorem stomp_or_damage_witness:
  "alive (enemies (enemyStep duelLevel (1 / 25) 0 landing) ! 0) = False \<and>
   vy (player (enemyStep duelLevel (1 / 25) 0 landing)) = - 360 \<and>
   score (enemyStep duelLevel (1 / 25) 0 landing) = 2 \<and>
   lives (enemyStep duelLevel (1 / 25) 0 landing) = 3 \<and>
   alive (enemies (enemyStep duelLevel (1 / 25) 0 bumped) ! 0) = True \<and>
   score (enemyStep duelLevel (1 / 25) 0 bumped) = 0 \<and>
   lives (enemyStep duelLevel (1 / 25) 0 bumped) = 2 \<and>
   alive (player (enemyStep duelLevel (1 / 25) 0 bumped)) \<and>
   x (player (enemyStep duelLevel (1 / 25) 0 bumped)) = 96 \<and>
   y (player (enemyStep duelLevel (1 / 25) 0 bumped)) = 0 \<and>
   lives (enemyStep duelLevel (1 / 25) 0 bumpedLast) = 0 \<and>
   alive (player (enemyStep duelLevel (1 / 25) 0 bumpedLast)) = False \<and>
   x (player (enemyStep duelLevel (1 / 25) 0 bumpedLast)) = 150 \<and>
   y (player (enemyStep duelLevel (1 / 25) 0 bumpedLast)) = 54"
proof -
  have pre:
    "0 < length (enemies landing) \<and> alive (enemies landing ! 0) \<and>
     rectsIntersect (enemyBox (patrol duelLevel (1 / 25) (enemies landing ! 0))) (playerBox (player landing))"
    "vy (player landing) > 0 \<and>
       (y (player landing) + h (player landing)) - (y (enemies landing ! 0) + h (enemies landing ! 0) / 2) < 16"
    "0 < length (enemies bumped) \<and> alive (enemies bumped ! 0) \<and>
     rectsIntersect (enemyBox (patrol duelLevel (1 / 25) (enemies bumped ! 0))) (playerBox (player bumped))"
    "\<not> (vy (player bumped) > 0 \<and>
       (y (player bumped) + h (player bumped)) - (y (enemies bumped ! 0) + h (enemies bumped ! 0) / 2) < 16)"
    "0 < length (enemies bumpedLast) \<and> alive (enemies bumpedLast ! 0) \<and>
     rectsIntersect (enemyBox (patrol duelLevel (1 / 25) (enemies bumpedLast ! 0))) (playerBox (player bumpedLast))"
    "\<not> (vy (player bumpedLast) > 0 \<and>
       (y (player bumpedLast) + h (player bumpedLast)) -
         (y (enemies bumpedLast ! 0) + h (enemies bumpedLast ! 0) / 2) < 16)"
    by code_simp+
  have vals: "score landing = 0" "lives landing = 3" "score bumped = 0" "lives bumped = 3"
    "alive (player bumped)" "lives bumpedLast = 1" "x (player bumpedLast) = 150"
    "y (player bumpedLast) = 54"
    by code_simp+
  note stomp = stomp_or_damage[of 0 landing duelLevel "1 / 25", THEN mp, OF pre(1),
      unfolded if_P[OF pre(2)], THEN conjunct2]
  note damage = stomp_or_damage[of 0 bumped duelLevel "1 / 25", THEN mp, OF pre(3),
      unfolded if_not_P[OF pre(4)]]
  note death = stomp_or_damage[of 0 bumpedLast duelLevel "1 / 25", THEN mp, OF pre(5),
      unfolded if_not_P[OF pre(6)]]
  have a: "alive (enemies (enemyStep duelLevel (1 / 25) 0 landing) ! 0) = False"
    "vy (player (enemyStep duelLevel (1 / 25) 0 landing)) = - 360"
    "score (enemyStep duelLevel (1 / 25) 0 landing) = 2"
    "lives (enemyStep duelLevel (1 / 25) 0 landing) = 3"
    using stomp vals(1,2) by (simp_all add: JUMP_SPEED_def)
  have b: "alive (enemies (enemyStep duelLevel (1 / 25) 0 bumped) ! 0) = True"
    "score (enemyStep duelLevel (1 / 25) 0 bumped) = 0"
    "lives (enemyStep duelLevel (1 / 25) 0 bumped) = 2"
    "alive (player (enemyStep duelLevel (1 / 25) 0 bumped))"
    using damage[THEN conjunct2] vals(3,4,5) by simp_all
  have pb: "player (enemyStep duelLevel (1 / 25) 0 bumped) =
      (player bumped)\<lparr>x := TILE * 2, y := 0, vx := 0, vy := 0\<rparr>"
    using damage[THEN conjunct1] vals(4) by simp
  have c: "x (player (enemyStep duelLevel (1 / 25) 0 bumped)) = 96"
    "y (player (enemyStep duelLevel (1 / 25) 0 bumped)) = 0"
    by (simp_all add: pb TILE_def)
  have d: "lives (enemyStep duelLevel (1 / 25) 0 bumpedLast) = 0"
    "alive (player (enemyStep duelLevel (1 / 25) 0 bumpedLast)) = False"
    using death[THEN conjunct2] vals(6) by simp_all
  have pd: "player (enemyStep duelLevel (1 / 25) 0 bumpedLast) = (player bumpedLast)\<lparr>alive := False\<rparr>"
    using death[THEN conjunct1] vals(6) by simp
  have e: "x (player (enemyStep duelLevel (1 / 25) 0 bumpedLast)) = 150"
    "y (player (enemyStep duelLevel (1 / 25) 0 bumpedLast)) = 54"
    by (simp_all add: pd vals(7,8))
  from a b c d e show ?thesis by (intro conjI)
qed

lemma coinStep_pick:
  "coinStep i wd =
     (if touches (player wd) (coins wd ! i)
      then wd\<lparr>coins := (coins wd)[i := pick (player wd) (coins wd ! i)], score := score wd + 1\<rparr>
      else wd)"
  by (simp add: coinStep_def touches_def pick_def Let_def)

lemma coin_prefix_step:
  assumes "n < length cs"
  shows "(map f (take n cs) @ drop n cs)[n := f (cs ! n)] = map f (take (Suc n) cs) @ drop (Suc n) cs"
proof -
  have "drop n cs = cs ! n # drop (Suc n) cs"
    using assms by (simp add: Cons_nth_drop_Suc)
  moreover have "length (map f (take n cs)) = n"
    using assms by simp
  ultimately show ?thesis
    using assms by (simp add: list_update_append take_Suc_conv_app_nth)
qed

lemma fold_coinStep:
  "n \<le> length (coins wd) \<Longrightarrow>
   fold coinStep [0..<n] wd =
     wd\<lparr>coins := map (pick (player wd)) (take n (coins wd)) @ drop n (coins wd),
        score := score wd + int (length (filter (touches (player wd)) (take n (coins wd))))\<rparr>"
proof (induction n)
  case 0
  then show ?case by simp
next
  case (Suc n)
  let ?cs = "coins wd" and ?p = "player wd"
  let ?mid = "wd\<lparr>coins := map (pick ?p) (take n ?cs) @ drop n ?cs,
        score := score wd + int (length (filter (touches ?p) (take n ?cs)))\<rparr>"
  from Suc.prems have n: "n < length ?cs" by simp
  then have IH: "fold coinStep [0..<n] wd = ?mid"
    using Suc.IH by simp
  have nth: "coins ?mid ! n = ?cs ! n"
    using n by (simp add: nth_append)
  have pick_id: "pick ?p (?cs ! n) = ?cs ! n" if "\<not> touches ?p (?cs ! n)"
    using that by (simp add: pick_def)
  have "fold coinStep [0..<Suc n] wd = coinStep n ?mid"
    by (simp add: IH)
  also have "\<dots> = wd\<lparr>coins := map (pick ?p) (take (Suc n) ?cs) @ drop (Suc n) ?cs,
        score := score wd + int (length (filter (touches ?p) (take (Suc n) ?cs)))\<rparr>"
  proof (cases "touches ?p (?cs ! n)")
    case True
    then show ?thesis
      using n nth coin_prefix_step[OF n, of "pick ?p"]
      by (simp add: coinStep_pick take_Suc_conv_app_nth)
  next
    case False
    have "drop n ?cs = ?cs ! n # drop (Suc n) ?cs"
      using n by (simp add: Cons_nth_drop_Suc)
    with False show ?thesis
      using n nth pick_id[OF False]
      by (simp add: coinStep_pick take_Suc_conv_app_nth)
  qed
  finally show ?case .
qed

lemma collectCoins_eq:
  "collectCoins wd =
     wd\<lparr>coins := map (pick (player wd)) (coins wd),
        score := score wd + int (length (filter (touches (player wd)) (coins wd)))\<rparr>"
  unfolding collectCoins_def using fold_coinStep[of "length (coins wd)" wd] by simp

lemma not_touches_pick: "\<not> touches p (pick p cn)"
  by (simp add: pick_def touches_def)

lemma collectCoins_again: "collectCoins (collectCoins wd) = collectCoins wd"
proof -
  have "filter (touches p) (map (pick p) cs) = []" for p cs
    by (simp add: filter_empty_conv not_touches_pick)
  moreover have "map (pick p) (map (pick p) cs) = map (pick p) cs" for p cs
    by (simp add: pick_def touches_def)
  ultimately show ?thesis
    by (simp add: collectCoins_eq)
qed

lemma coins_playerHurt: "coins (playerHurt wd) = coins wd"
  by (simp add: playerHurt_def Let_def)

lemma coins_enemyStep: "coins (enemyStep lv dt i wd) = coins wd"
  by (simp add: enemyStep_def Let_def coins_playerHurt)

lemma coins_fold_enemyStep: "coins (fold (enemyStep lv dt) js wd) = coins wd"
  by (induction js arbitrary: wd) (simp_all add: coins_enemyStep)

lemma coins_update:
  "coins (update lv ks dt wd) =
     (if alive (player wd) then map (pick (movePlayer lv ks dt (player wd))) (coins wd)
      else coins wd)"
  by (simp add: update_def voidFall_def updateEnemies_def coins_playerHurt
      coins_fold_enemyStep collectCoins_eq)

lemma filter_update_count:
  "i < length xs \<Longrightarrow>
   int (length (filter P (xs[i := v]))) =
     int (length (filter P xs)) + (if P v then 1 else 0) - (if P (xs ! i) then 1 else 0)"
proof (induction xs arbitrary: i)
  case Nil
  then show ?case by simp
next
  case (Cons a xs)
  show ?case
  proof (cases i)
    case 0
    then show ?thesis by simp
  next
    case (Suc n)
    with Cons.prems have "n < length xs" by simp
    from Cons.IH[OF this] Suc show ?thesis by (auto split: if_splits)
  qed
qed

lemma alive_patrol: "alive (patrol lv dt en) = alive en"
  by (simp add: patrol_def Let_def)

lemma length_enemies_enemyStep: "length (enemies (enemyStep lv dt i wd)) = length (enemies wd)"
  by (simp add: enemyStep_def Let_def playerHurt_def)

text \<open>Every enemy step keeps the score plus twice the number of living enemies.\<close>

lemma enemyStep_balance:
  assumes "i < length (enemies wd)"
  shows "score (enemyStep lv dt i wd) + 2 * int (length (filter alive (enemies (enemyStep lv dt i wd)))) =
         score wd + 2 * int (length (filter alive (enemies wd)))"
  using assms
  by (simp add: enemyStep_def Let_def playerHurt_def filter_update_count alive_patrol)

lemma fold_enemyStep_balance:
  "(\<And>i. i \<in> set js \<Longrightarrow> i < length (enemies wd)) \<Longrightarrow>
   score (fold (enemyStep lv dt) js wd) +
     2 * int (length (filter alive (enemies (fold (enemyStep lv dt) js wd)))) =
   score wd + 2 * int (length (filter alive (enemies wd)))"
proof (induction js arbitrary: wd)
  case Nil
  then show ?case by simp
next
  case (Cons j js)
  have "score (fold (enemyStep lv dt) js (enemyStep lv dt j wd)) +
     2 * int (length (filter alive (enemies (fold (enemyStep lv dt) js (enemyStep lv dt j wd))))) =
   score (enemyStep lv dt j wd) + 2 * int (length (filter alive (enemies (enemyStep lv dt j wd))))"
    by (rule Cons.IH) (simp add: length_enemies_enemyStep Cons.prems)
  also have "\<dots> = score wd + 2 * int (length (filter alive (enemies wd)))"
    by (rule enemyStep_balance) (simp add: Cons.prems)
  finally show ?case by simp
qed

lemma updateEnemies_balance:
  "score (updateEnemies lv dt wd) + 2 * int (length (filter alive (enemies (updateEnemies lv dt wd)))) =
   score wd + 2 * int (length (filter alive (enemies wd)))"
  unfolding updateEnemies_def by (rule fold_enemyStep_balance) simp

lemma voidFall_keeps:
  "score (voidFall lv wd) = score wd" "enemies (voidFall lv wd) = enemies wd"
  "coins (voidFall lv wd) = coins wd"
  by (simp_all add: voidFall_def playerHurt_def Let_def)

lemma collectCoins_keeps:
  "enemies (collectCoins wd) = enemies wd" "player (collectCoins wd) = player wd"
  by (simp_all add: collectCoins_eq)

lemma score_update:
  assumes "alive (player wd)"
  shows "score (update lv ks dt wd) =
     score wd +
     int (length (filter (touches (movePlayer lv ks dt (player wd))) (coins wd))) +
     2 * (int (length (filter alive (enemies wd))) -
          int (length (filter alive (enemies (update lv ks dt wd)))))"
proof -
  let ?w1 = "collectCoins (wd\<lparr>player := movePlayer lv ks dt (player wd)\<rparr>)"
  have u: "update lv ks dt wd = voidFall lv (updateEnemies lv dt ?w1)"
    using assms by (simp add: update_def)
  have s1: "score ?w1 =
     score wd + int (length (filter (touches (movePlayer lv ks dt (player wd))) (coins wd)))"
    by (simp add: collectCoins_eq)
  have e1: "enemies ?w1 = enemies wd"
    by (simp add: collectCoins_keeps)
  from updateEnemies_balance[of lv dt ?w1] s1 e1 show ?thesis
    by (simp add: u voidFall_keeps)
qed

text \<open>
  Claim C7. In a step of a living player, a coin is picked exactly when it was unpicked
  and its pickup box overlaps the player's box after the step's movement; every other
  coin, in particular every picked one, is unchanged. The step's score gain is 1 for
  each coin picked in it plus 2 for each enemy killed in it, so a picked coin that
  still overlaps the player adds nothing in any later step. A step of a dead player
  changes nothing. The same holds of the coin loop and its body alone: the body picks
  an unpicked overlapping coin and adds exactly 1, does nothing on a picked coin, and
  the loop run again on its own result changes neither the score nor any coin.
\<close>

theorem coin_pickup_once:
  "(alive (player wd) \<and> i < length (coins wd) \<longrightarrow>
      coins (update lv ks dt wd) ! i =
        (if \<not> picked (coins wd ! i) \<and>
            rectsIntersect (coinBox (coins wd ! i)) (playerBox (movePlayer lv ks dt (player wd)))
         then (coins wd ! i)\<lparr>picked := True\<rparr> else coins wd ! i)) \<and>
   (alive (player wd) \<longrightarrow>
      score (update lv ks dt wd) =
        score wd +
        int (length (filter (\<lambda>cn. \<not> picked cn \<and>
           rectsIntersect (coinBox cn) (playerBox (movePlayer lv ks dt (player wd)))) (coins wd))) +
        2 * (int (length (filter alive (enemies wd))) -
             int (length (filter alive (enemies (update lv ks dt wd)))))) \<and>
   (\<not> alive (player wd) \<longrightarrow> update lv ks dt wd = wd) \<and>
   (i < length (coins wd) \<and> picked (coins wd ! i) \<longrightarrow>
      coins (update lv ks dt wd) ! i = coins wd ! i) \<and>
   (i < length (coins wd) \<and> \<not> picked (coins wd ! i) \<and>
    rectsIntersect (coinBox (coins wd ! i)) (playerBox (player wd)) \<longrightarrow>
      coins (coinStep i wd) ! i = (coins wd ! i)\<lparr>picked := True\<rparr> \<and>
      score (coinStep i wd) = score wd + 1) \<and>
   (picked (coins wd ! i) \<longrightarrow> coinStep i wd = wd) \<and>
   (i < length (coins wd) \<longrightarrow>
      coins (collectCoins wd) ! i =
        (if \<not> picked (coins wd ! i) \<and>
            rectsIntersect (coinBox (coins wd ! i)) (playerBox (player wd))
         then (coins wd ! i)\<lparr>picked := True\<rparr> else coins wd ! i)) \<and>
   score (collectCoins wd) =
     score wd + int (length (filter (\<lambda>cn. \<not> picked cn \<and>
        rectsIntersect (coinBox cn) (playerBox (player wd))) (coins wd))) \<and>
   collectCoins (collectCoins wd) = collectCoins wd"
proof -
  have t: "touches p = (\<lambda>cn. \<not> picked cn \<and> rectsIntersect (coinBox cn) (playerBox p))" for p
    by (rule ext) (simp add: touches_def)
  have up1: "alive (player wd) \<and> i < length (coins wd) \<longrightarrow>
      coins (update lv ks dt wd) ! i =
        (if \<not> picked (coins wd ! i) \<and>
            rectsIntersect (coinBox (coins wd ! i)) (playerBox (movePlayer lv ks dt (player wd)))
         then (coins wd ! i)\<lparr>picked := True\<rparr> else coins wd ! i)"
    by (simp add: coins_update pick_def touches_def)
  have up2: "alive (player wd) \<longrightarrow>
      score (update lv ks dt wd) =
        score wd +
        int (length (filter (\<lambda>cn. \<not> picked cn \<and>
           rectsIntersect (coinBox cn) (playerBox (movePlayer lv ks dt (player wd)))) (coins wd))) +
        2 * (int (length (filter alive (enemies wd))) -
             int (length (filter alive (enemies (update lv ks dt wd)))))"
    using score_update[of wd lv ks dt] by (simp only: t) blast
  have up3: "\<not> alive (player wd) \<longrightarrow> update lv ks dt wd = wd"
    by (simp add: update_def)
  have later: "i < length (coins wd) \<and> picked (coins wd ! i) \<longrightarrow>
      coins (update lv ks dt wd) ! i = coins wd ! i"
    by (simp add: coins_update pick_def touches_def)
  have step1: "i < length (coins wd) \<and> \<not> picked (coins wd ! i) \<and>
    rectsIntersect (coinBox (coins wd ! i)) (playerBox (player wd)) \<longrightarrow>
      coins (coinStep i wd) ! i = (coins wd ! i)\<lparr>picked := True\<rparr> \<and>
      score (coinStep i wd) = score wd + 1"
    by (simp add: coinStep_def Let_def)
  have step2: "picked (coins wd ! i) \<longrightarrow> coinStep i wd = wd"
    by (simp add: coinStep_def Let_def)
  have loop1: "i < length (coins wd) \<longrightarrow>
      coins (collectCoins wd) ! i =
        (if \<not> picked (coins wd ! i) \<and>
            rectsIntersect (coinBox (coins wd ! i)) (playerBox (player wd))
         then (coins wd ! i)\<lparr>picked := True\<rparr> else coins wd ! i)"
    by (simp add: collectCoins_eq pick_def touches_def)
  have loop2: "score (collectCoins wd) =
     score wd + int (length (filter (\<lambda>cn. \<not> picked cn \<and>
        rectsIntersect (coinBox cn) (playerBox (player wd))) (coins wd)))"
    by (simp add: collectCoins_eq t)
  from up1 up2 up3 later step1 step2 loop1 loop2 collectCoins_again[of wd] show ?thesis
    by (intro conjI)
qed

text \<open>
  The player of \<open>atCoin\<close> overlaps the first coin of \<open>coinLevel\<close> only: the first step picks
  it and adds 1, the second step changes neither that coin nor the score.
\<close>

theorem coin_pickup_once_witness:
  "coins (update coinLevel noKeys (1 / 25) atCoin) ! 0 = (coins atCoin ! 0)\<lparr>picked := True\<rparr> \<and>
   score (update coinLevel noKeys (1 / 25) atCoin) = score atCoin + 1 \<and>
   coins (update coinLevel noKeys (1 / 25) (update coinLevel noKeys (1 / 25) atCoin)) ! 0 =
     coins (update coinLevel noKeys (1 / 25) atCoin) ! 0 \<and>
   score (update coinLevel noKeys (1 / 25) (update coinLevel noKeys (1 / 25) atCoin)) =
     score (update coinLevel noKeys (1 / 25) atCoin) \<and>
   coinStep 0 (collectCoins atCoin) = collectCoins atCoin \<and>
   collectCoins (collectCoins atCoin) = collectCoins atCoin"
proof -
  let ?w1 = "update coinLevel noKeys (1 / 25) atCoin"
  have pre:
    "alive (player atCoin) \<and> 0 < length (coins atCoin)"
    "\<not> picked (coins atCoin ! 0) \<and>
       rectsIntersect (coinBox (coins atCoin ! 0))
         (playerBox (movePlayer coinLevel noKeys (1 / 25) (player atCoin)))"
    "alive (player atCoin)"
    "alive (player ?w1)"
    "0 < length (coins ?w1) \<and> picked (coins ?w1 ! 0)"
    "picked (coins (collectCoins atCoin) ! 0)"
    by code_simp+
  have cnt:
    "score atCoin +
       int (length (filter (\<lambda>cn. \<not> picked cn \<and>
          rectsIntersect (coinBox cn) (playerBox (movePlayer coinLevel noKeys (1 / 25) (player atCoin))))
          (coins atCoin))) +
       2 * (int (length (filter alive (enemies atCoin))) -
            int (length (filter alive (enemies ?w1)))) = score atCoin + 1"
    "score ?w1 +
       int (length (filter (\<lambda>cn. \<not> picked cn \<and>
          rectsIntersect (coinBox cn) (playerBox (movePlayer coinLevel noKeys (1 / 25) (player ?w1))))
          (coins ?w1))) +
       2 * (int (length (filter alive (enemies ?w1))) -
            int (length (filter alive (enemies (update coinLevel noKeys (1 / 25) ?w1))))) = score ?w1"
    by code_simp+
  note first = coin_pickup_once[of atCoin 0 coinLevel noKeys "1 / 25"]
  note again = coin_pickup_once[of ?w1 0 coinLevel noKeys "1 / 25"]
  note loop = coin_pickup_once[of "collectCoins atCoin" 0 coinLevel noKeys "1 / 25"]
  note a0 = first[THEN conjunct1, THEN mp, OF pre(1), unfolded if_P[OF pre(2)]]
  note b0 = first[THEN conjunct2, THEN conjunct1, THEN mp, OF pre(3)]
  note c0 = again[THEN conjunct2, THEN conjunct2, THEN conjunct2, THEN conjunct1, THEN mp, OF pre(5)]
  note d0 = again[THEN conjunct2, THEN conjunct1, THEN mp, OF pre(4)]
  note e0 = loop[THEN conjunct2, THEN conjunct2, THEN conjunct2, THEN conjunct2,
      THEN conjunct2, THEN conjunct1, THEN mp, OF pre(6)]
  note f0 = first[THEN conjunct2, THEN conjunct2, THEN conjunct2, THEN conjunct2,
      THEN conjunct2, THEN conjunct2, THEN conjunct2, THEN conjunct2]
  have b1: "score ?w1 = score atCoin + 1"
    using b0 cnt(1) by (rule trans)
  have d1: "score (update coinLevel noKeys (1 / 25) ?w1) = score ?w1"
    using d0 cnt(2) by (rule trans)
  from a0 b1 c0 d1 e0 f0 show ?thesis
    by (intro conjI)
qed

text \<open>While the player is dead a step changes nothing, so no later step takes a life.\<close>

lemma update_dead: "\<not> alive (player wd) \<Longrightarrow> update lv ks dt wd = wd"
  by (simp add: update_def)

text \<open>
  Claim C2 fails on the code: inside one step nothing stops a second life loss after
  the player has died. With one life left and two living enemies overlapping the player
  (neither stomped), the first enemy takes the last life and clears \<open>alive\<close>, the second
  takes another one: the step ends with \<open>lives = - 1\<close>.
\<close>

theorem lives_negative:
  "alive (player lastLife) \<and> lives lastLife = 1 \<and>
   map alive (enemies lastLife) = [True, True] \<and>
   lives (update stackLevel rightKey (1 / 25) lastLife) = - 1 \<and>
   \<not> alive (player (update stackLevel rightKey (1 / 25) lastLife)) \<and>
   map alive (enemies (update stackLevel rightKey (1 / 25) lastLife)) = [True, True]"
  by code_simp

end
